theory Spec2Isabelle
  imports Complex_Main "HOL-Library.Multiset"
begin

section \<open>JavaScript numbers\<close>

text \<open>
  The worker computes with JavaScript numbers. They are modelled as the real numbers
  extended with the two infinities and NaN, with the IEEE-754 rules for the special
  values (\<open>0/0 = NaN\<close>, \<open>x/0 = \<plusminus>Infinity\<close>, every comparison with NaN is false).
  Two things are abstracted: finite results are exact (a double's rounding is not
  modelled), and there is a single zero, which behaves as \<open>+0\<close>.
\<close>

datatype jsnum = Fin real | PosInf | NegInf | NaN

fun jneg :: "jsnum \<Rightarrow> jsnum" where
  "jneg (Fin x) = Fin (- x)"
| "jneg PosInf = NegInf"
| "jneg NegInf = PosInf"
| "jneg NaN = NaN"

fun jadd :: "jsnum \<Rightarrow> jsnum \<Rightarrow> jsnum" where
  "jadd NaN _ = NaN"
| "jadd _ NaN = NaN"
| "jadd (Fin x) (Fin y) = Fin (x + y)"
| "jadd PosInf NegInf = NaN"
| "jadd NegInf PosInf = NaN"
| "jadd PosInf _ = PosInf"
| "jadd NegInf _ = NegInf"
| "jadd _ PosInf = PosInf"
| "jadd _ NegInf = NegInf"

definition jsub :: "jsnum \<Rightarrow> jsnum \<Rightarrow> jsnum" where
  "jsub a b = jadd a (jneg b)"

fun jmul :: "jsnum \<Rightarrow> jsnum \<Rightarrow> jsnum" where
  "jmul NaN _ = NaN"
| "jmul _ NaN = NaN"
| "jmul (Fin x) (Fin y) = Fin (x * y)"
| "jmul (Fin x) PosInf = (if x = 0 then NaN else if 0 < x then PosInf else NegInf)"
| "jmul (Fin x) NegInf = (if x = 0 then NaN else if 0 < x then NegInf else PosInf)"
| "jmul PosInf (Fin y) = (if y = 0 then NaN else if 0 < y then PosInf else NegInf)"
| "jmul NegInf (Fin y) = (if y = 0 then NaN else if 0 < y then NegInf else PosInf)"
| "jmul PosInf PosInf = PosInf"
| "jmul PosInf NegInf = NegInf"
| "jmul NegInf PosInf = NegInf"
| "jmul NegInf NegInf = PosInf"

fun jdiv :: "jsnum \<Rightarrow> jsnum \<Rightarrow> jsnum" where
  "jdiv NaN _ = NaN"
| "jdiv _ NaN = NaN"
| "jdiv (Fin x) (Fin y) =
     (if y = 0 then (if x = 0 then NaN else if 0 < x then PosInf else NegInf)
      else Fin (x / y))"
| "jdiv (Fin x) PosInf = Fin 0"
| "jdiv (Fin x) NegInf = Fin 0"
| "jdiv PosInf (Fin y) = (if 0 \<le> y then PosInf else NegInf)"
| "jdiv NegInf (Fin y) = (if 0 \<le> y then NegInf else PosInf)"
| "jdiv PosInf PosInf = NaN"
| "jdiv PosInf NegInf = NaN"
| "jdiv NegInf PosInf = NaN"
| "jdiv NegInf NegInf = NaN"

text \<open>The comparisons \<open><\<close>, \<open><=\<close> and \<open>>\<close>: false as soon as an operand is NaN.\<close>

fun jlt :: "jsnum \<Rightarrow> jsnum \<Rightarrow> bool" where
  "jlt (Fin x) (Fin y) = (x < y)"
| "jlt (Fin x) PosInf = True"
| "jlt NegInf (Fin y) = True"
| "jlt NegInf PosInf = True"
| "jlt _ _ = False"

definition jle :: "jsnum \<Rightarrow> jsnum \<Rightarrow> bool" where
  "jle a b = (a \<noteq> NaN \<and> b \<noteq> NaN \<and> \<not> jlt b a)"

definition jgt :: "jsnum \<Rightarrow> jsnum \<Rightarrow> bool" where
  "jgt a b = jlt b a"

text \<open>The functions of \<open>Math\<close> that the worker calls.\<close>

definition Math_PI :: jsnum where
  "Math_PI = Fin pi"

fun Math_floor :: "jsnum \<Rightarrow> jsnum" where
  "Math_floor (Fin x) = Fin (of_int \<lfloor>x\<rfloor>)"
| "Math_floor PosInf = PosInf"
| "Math_floor NegInf = NegInf"
| "Math_floor NaN = NaN"

fun Math_abs :: "jsnum \<Rightarrow> jsnum" where
  "Math_abs (Fin x) = Fin \<bar>x\<bar>"
| "Math_abs PosInf = PosInf"
| "Math_abs NegInf = PosInf"
| "Math_abs NaN = NaN"

fun Math_sin :: "jsnum \<Rightarrow> jsnum" where
  "Math_sin (Fin x) = Fin (sin x)"
| "Math_sin _ = NaN"

fun Math_cos :: "jsnum \<Rightarrow> jsnum" where
  "Math_cos (Fin x) = Fin (cos x)"
| "Math_cos _ = NaN"

fun Math_sqrt :: "jsnum \<Rightarrow> jsnum" where
  "Math_sqrt (Fin x) = (if x < 0 then NaN else Fin (sqrt x))"
| "Math_sqrt PosInf = PosInf"
| "Math_sqrt _ = NaN"

definition atan2_real :: "real \<Rightarrow> real \<Rightarrow> real" where
  "atan2_real y x =
     (if 0 < x then arctan (y / x)
      else if x < 0 then (if 0 \<le> y then arctan (y / x) + pi else arctan (y / x) - pi)
      else if 0 < y then pi / 2
      else if y < 0 then - (pi / 2)
      else 0)"

fun Math_atan2 :: "jsnum \<Rightarrow> jsnum \<Rightarrow> jsnum" where
  "Math_atan2 NaN _ = NaN"
| "Math_atan2 _ NaN = NaN"
| "Math_atan2 (Fin y) (Fin x) = Fin (atan2_real y x)"
| "Math_atan2 (Fin y) PosInf = Fin 0"
| "Math_atan2 (Fin y) NegInf = (if 0 \<le> y then Fin pi else Fin (- pi))"
| "Math_atan2 PosInf (Fin x) = Fin (pi / 2)"
| "Math_atan2 NegInf (Fin x) = Fin (- (pi / 2))"
| "Math_atan2 PosInf PosInf = Fin (pi / 4)"
| "Math_atan2 PosInf NegInf = Fin (3 * pi / 4)"
| "Math_atan2 NegInf PosInf = Fin (- (pi / 4))"
| "Math_atan2 NegInf NegInf = Fin (- (3 * pi / 4))"

section \<open>The distance estimator\<close>

text \<open>
  \<open>haversineDistance(lat1, lon1, lat2, lon2)\<close>, operation by operation, with the
  source's evaluation order (products associate to the left).
\<close>

definition haversineDistance :: "jsnum \<Rightarrow> jsnum \<Rightarrow> jsnum \<Rightarrow> jsnum \<Rightarrow> jsnum" where
  "haversineDistance lat1 lon1 lat2 lon2 =
     (let R = Fin 20902231;
          dLat = jdiv (jmul (jsub lat2 lat1) Math_PI) (Fin 180);
          dLon = jdiv (jmul (jsub lon2 lon1) Math_PI) (Fin 180);
          a = jadd (jmul (Math_sin (jdiv dLat (Fin 2))) (Math_sin (jdiv dLat (Fin 2))))
                (jmul
                  (jmul
                    (jmul (Math_cos (jdiv (jmul lat1 Math_PI) (Fin 180)))
                          (Math_cos (jdiv (jmul lat2 Math_PI) (Fin 180))))
                    (Math_sin (jdiv dLon (Fin 2))))
                  (Math_sin (jdiv dLon (Fin 2))));
          c = jmul (Fin 2) (Math_atan2 (Math_sqrt a) (Math_sqrt (jsub (Fin 1) a)))
      in jmul R c)"

section \<open>The spatial grid index\<close>

text \<open>
  A point is \<open>{lat, lon, data}\<close>; \<open>data\<close> is the caller's payload or \<open>null\<close>
  (\<open>None\<close>). Every object the worker receives (hydrant, station, address) has at
  least the fields \<open>lat\<close> and \<open>lon\<close>: it is a \<open>coord\<close> record with any further
  fields.
\<close>

record coord =
  lat :: jsnum
  lon :: jsnum

record 'd point = coord +
  data :: "'d option"

text \<open>
  The source keys the buckets by the string \<open>cellX,cellY\<close> printed from the two cell
  numbers. The key is modelled as the pair of numbers itself: printing a number is
  injective, so two keys are equal as strings exactly when the pairs are equal.
\<close>

type_synonym cell = "jsnum \<times> jsnum"

record 'd SpatialGrid =
  cellSize :: jsnum
  grid :: "cell \<rightharpoonup> 'd point list"
  allPoints :: "'d point list"

definition new_SpatialGrid :: "jsnum \<Rightarrow> 'd SpatialGrid" where
  "new_SpatialGrid cellSizeDegrees =
     \<lparr>cellSize = cellSizeDegrees, grid = Map.empty, allPoints = []\<rparr>"

definition clear :: "'d SpatialGrid \<Rightarrow> 'd SpatialGrid" where
  "clear g = g\<lparr>grid := Map.empty, allPoints := []\<rparr>"

definition getCell :: "'d SpatialGrid \<Rightarrow> jsnum \<Rightarrow> jsnum \<Rightarrow> cell" where
  "getCell g qlat qlon =
     (let cellX = Math_floor (jdiv qlon (cellSize g));
          cellY = Math_floor (jdiv qlat (cellSize g))
      in (cellX, cellY))"

definition bucket :: "'d SpatialGrid \<Rightarrow> cell \<Rightarrow> 'd point list" where
  "bucket g c = (case grid g c of None \<Rightarrow> [] | Some ps \<Rightarrow> ps)"

definition insert_point :: "'d SpatialGrid \<Rightarrow> jsnum \<Rightarrow> jsnum \<Rightarrow> 'd option \<Rightarrow> 'd SpatialGrid" where
  "insert_point g plat plon d =
     (let p = \<lparr>lat = plat, lon = plon, data = d\<rparr>;
          c = getCell g plat plon
      in g\<lparr>allPoints := allPoints g @ [p],
            grid := (grid g)(c \<mapsto> bucket g c @ [p])\<rparr>)"

text \<open>
  \<open>getNearbyPoints\<close>: the two nested loops over \<open>dx\<close> and \<open>dy\<close> from
  \<open>-radiusCells\<close> to \<open>radiusCells\<close>, appending each bucket found to \<open>nearby\<close>.
\<close>

definition getNearbyPoints :: "'d SpatialGrid \<Rightarrow> jsnum \<Rightarrow> jsnum \<Rightarrow> int \<Rightarrow> 'd point list" where
  "getNearbyPoints g qlat qlon radiusCells =
     (let centerCellX = Math_floor (jdiv qlon (cellSize g));
          centerCellY = Math_floor (jdiv qlat (cellSize g))
      in concat (map (\<lambda>dx.
           concat (map (\<lambda>dy.
             bucket g (jadd centerCellX (Fin (of_int dx)), jadd centerCellY (Fin (of_int dy))))
             [- radiusCells..radiusCells]))
           [- radiusCells..radiusCells]))"

record 'd nearest =
  point :: "'d point option"
  distance :: jsnum

text \<open>The inner loop of \<open>findNearest\<close> over the candidates, with \<open>bestDist\<close> and \<open>bestPoint\<close>.\<close>

fun nearest_scan :: "jsnum \<Rightarrow> jsnum \<Rightarrow> 'd point list \<Rightarrow> jsnum \<Rightarrow> 'd point option \<Rightarrow> 'd nearest" where
  "nearest_scan qlat qlon [] bestDist bestPoint = \<lparr>point = bestPoint, distance = bestDist\<rparr>"
| "nearest_scan qlat qlon (p # ps) bestDist bestPoint =
     (let dist = haversineDistance qlat qlon (lat p) (lon p)
      in if jlt dist bestDist then nearest_scan qlat qlon ps dist (Some p)
         else nearest_scan qlat qlon ps bestDist bestPoint)"

text \<open>The outer loop of \<open>findNearest\<close>: \<open>for (let radius = 1; radius <= 20; radius++)\<close>.\<close>

function findNearest_from :: "'d SpatialGrid \<Rightarrow> jsnum \<Rightarrow> jsnum \<Rightarrow> nat \<Rightarrow> 'd nearest" where
  "findNearest_from g qlat qlon radius =
     (if radius \<le> 20 then
        (let candidates = getNearbyPoints g qlat qlon (int radius)
         in if candidates \<noteq> [] then nearest_scan qlat qlon candidates PosInf None
            else findNearest_from g qlat qlon (radius + 1))
      else \<lparr>point = None, distance = PosInf\<rparr>)"
  by pat_completeness auto
termination
  by (relation "measure (\<lambda>(g, qlat, qlon, radius). 21 - radius)") auto

declare findNearest_from.simps [simp del]

definition findNearest :: "'d SpatialGrid \<Rightarrow> jsnum \<Rightarrow> jsnum \<Rightarrow> 'd nearest" where
  "findNearest g qlat qlon = findNearest_from g qlat qlon 1"

section \<open>Polygon geometry\<close>

text \<open>
  A GeoJSON feature carries a geometry: its \<open>type\<close> tag and its \<open>coordinates\<close>. A
  \<open>Polygon\<close> has a list of rings, a \<open>MultiPolygon\<close> a list of polygons; any other
  tag is an \<open>OtherGeometry\<close>, whose coordinates the worker never reads. A vertex is
  the pair \<open>[lon, lat]\<close>, read as \<open>c[0]\<close> and \<open>c[1]\<close>.
\<close>

datatype error = TypeError

type_synonym vertex = "jsnum \<times> jsnum"
type_synonym ring = "vertex list"

datatype geometry = Polygon "ring list" | MultiPolygon "ring list list" | OtherGeometry string

record feature =
  geometry :: geometry

text \<open>\<open>p[0]\<close>: \<open>undefined\<close> (\<open>None\<close>) on an empty array.\<close>

definition first_ring :: "ring list \<Rightarrow> ring option" where
  "first_ring p = (case p of [] \<Rightarrow> None | r # _ \<Rightarrow> Some r)"

text \<open>The condition of the ray-casting loop for the edge between vertices \<open>i\<close> and \<open>j\<close>.\<close>

definition crosses :: "jsnum \<Rightarrow> jsnum \<Rightarrow> vertex \<Rightarrow> vertex \<Rightarrow> bool" where
  "crosses qlat qlon vi vj =
     (let xi = fst vi; yi = snd vi; xj = fst vj; yj = snd vj
      in (jgt yi qlat \<noteq> jgt yj qlat) \<and>
         jlt qlon (jadd (jdiv (jmul (jsub xj xi) (jsub qlat yi)) (jsub yj yi)) xi))"

text \<open>
  \<open>for (let i = 0, j = coords.length - 1; i < coords.length; j = i++)\<close>. Inside the
  loop \<open>i\<close> and \<open>j\<close> are indices of the ring. (On an empty ring \<open>j\<close> starts at
  \<open>-1\<close>, which the natural number \<open>length coords - 1 = 0\<close> replaces; the loop does
  not run and \<open>j\<close> is not read.)
\<close>

function ring_loop :: "ring \<Rightarrow> jsnum \<Rightarrow> jsnum \<Rightarrow> nat \<Rightarrow> nat \<Rightarrow> bool \<Rightarrow> bool" where
  "ring_loop coords qlat qlon i j inside =
     (if i < length coords then
        ring_loop coords qlat qlon (i + 1) i
          (if crosses qlat qlon (coords ! i) (coords ! j) then \<not> inside else inside)
      else inside)"
  by pat_completeness auto
termination
  by (relation "measure (\<lambda>(coords, qlat, qlon, i, j, inside). length coords - i)") auto

declare ring_loop.simps [simp del]

text \<open>
  The loop over the rings. Reading \<open>coords.length\<close> of an \<open>undefined\<close> ring throws a
  \<open>TypeError\<close>; a ring that contains the point returns before the later rings are read.
\<close>

fun rings_loop :: "ring option list \<Rightarrow> jsnum \<Rightarrow> jsnum \<Rightarrow> error + bool" where
  "rings_loop [] qlat qlon = Inr False"
| "rings_loop (None # rings) qlat qlon = Inl TypeError"
| "rings_loop (Some coords # rings) qlat qlon =
     (if ring_loop coords qlat qlon 0 (length coords - 1) False then Inr True
      else rings_loop rings qlat qlon)"

definition pointInPolygon :: "jsnum \<Rightarrow> jsnum \<Rightarrow> 'z feature_scheme \<Rightarrow> error + bool" where
  "pointInPolygon qlat qlon polygon =
     (case geometry polygon of
        Polygon coordinates \<Rightarrow> rings_loop [first_ring coordinates] qlat qlon
      | MultiPolygon coordinates \<Rightarrow> rings_loop (map first_ring coordinates) qlat qlon
      | OtherGeometry t \<Rightarrow> Inr False)"

text \<open>
  \<open>for (let i = 0; i < coords.length - 1; i++)\<close> of \<open>calculateRingArea\<close>, with the
  condition written \<open>i + 1 < coords.length\<close> (the same over the integers, where
  \<open>coords.length - 1\<close> is \<open>-1\<close> on an empty ring).
\<close>

function area_loop :: "ring \<Rightarrow> jsnum \<Rightarrow> jsnum \<Rightarrow> nat \<Rightarrow> jsnum \<Rightarrow> jsnum" where
  "area_loop coords lonToMiles latToMiles i area =
     (if i + 1 < length coords then
        (let x1 = jmul (fst (coords ! i)) lonToMiles;
             y1 = jmul (snd (coords ! i)) latToMiles;
             x2 = jmul (fst (coords ! (i + 1))) lonToMiles;
             y2 = jmul (snd (coords ! (i + 1))) latToMiles
         in area_loop coords lonToMiles latToMiles (i + 1)
              (jadd area (jsub (jmul x1 y2) (jmul x2 y1))))
      else area)"
  by pat_completeness auto
termination
  by (relation "measure (\<lambda>(coords, lonToMiles, latToMiles, i, area). length coords - i)") auto

declare area_loop.simps [simp del]

definition calculateRingArea :: "ring option \<Rightarrow> error + jsnum" where
  "calculateRingArea r =
     (case r of
        None \<Rightarrow> Inl TypeError
      | Some coords \<Rightarrow>
          (let avgLat = jdiv (foldl (\<lambda>sum c. jadd sum (snd c)) (Fin 0) coords)
                             (Fin (real (length coords)));
               lonToMiles = jmul (Fin 69) (Math_cos (jdiv (jmul avgLat Math_PI) (Fin 180)));
               latToMiles = Fin 69;
               area = area_loop coords lonToMiles latToMiles 0 (Fin 0)
           in Inr (Math_abs (jdiv area (Fin 2)))))"

fun multi_area_loop :: "ring list list \<Rightarrow> jsnum \<Rightarrow> error + jsnum" where
  "multi_area_loop [] totalArea = Inr totalArea"
| "multi_area_loop (poly # polys) totalArea =
     (case calculateRingArea (first_ring poly) of
        Inl e \<Rightarrow> Inl e
      | Inr a \<Rightarrow> multi_area_loop polys (jadd totalArea a))"

definition calculatePolygonArea :: "'z feature_scheme \<Rightarrow> error + jsnum" where
  "calculatePolygonArea polygon =
     (case geometry polygon of
        Polygon coordinates \<Rightarrow> calculateRingArea (first_ring coordinates)
      | MultiPolygon coordinates \<Rightarrow> multi_area_loop coordinates (Fin 0)
      | OtherGeometry t \<Rightarrow> Inr (Fin 0))"

section \<open>Formatting with one decimal\<close>

text \<open>
  \<open>x.toFixed(1)\<close>: a number that is not finite prints as \<open>NaN\<close>, \<open>Infinity\<close> or
  \<open>-Infinity\<close>; a finite one prints the integer \<open>n\<close> nearest to \<open>10 * |x|\<close> (the
  larger one on a tie) with a point before its last digit, after the sign of a
  negative \<open>x\<close>. JavaScript switches to exponent notation from \<open>10^21\<close> on, which
  the ratios of counts formatted by the worker do not reach; that case is not
  modelled.
\<close>

definition digit :: "nat \<Rightarrow> char" where
  "digit n = ''0123456789'' ! n"

fun digits :: "nat \<Rightarrow> string" where
  "digits n = (if n < 10 then [digit n] else digits (n div 10) @ [digit (n mod 10)])"

declare digits.simps [simp del]

fun toFixed1 :: "jsnum \<Rightarrow> string" where
  "toFixed1 NaN = ''NaN''"
| "toFixed1 PosInf = ''Infinity''"
| "toFixed1 NegInf = ''-Infinity''"
| "toFixed1 (Fin x) =
     (let s = (if x < 0 then ''-'' else []);
          n = nat \<lfloor>\<bar>x\<bar> * 10 + 1 / 2\<rfloor>
      in s @ digits (n div 10) @ ''.'' @ [digit (n mod 10)])"

section \<open>The worker: state, messages and handlers\<close>

text \<open>
  An address record of the precomputed table: the address's own fields (\<open>...addr\<close>:
  \<open>lat\<close>, \<open>lon\<close> and the rest, kept in \<open>addr_rest\<close>) and the derived ones.
\<close>

record ('a, 's) address_distance = coord +
  addr_rest :: 'a
  nearestHydrantDist :: jsnum
  nearestStationDist :: jsnum
  nearestStationData :: "'s coord_scheme option"
  within500ft :: bool
  within1000ft :: bool
  underserved :: bool
  withinStationMile :: bool

text \<open>
  The worker's global variables. The hydrant index holds points without payload, the
  station index points whose payload is the station itself.
\<close>

record ('h, 's, 'a) worker_state =
  hydrantGrid :: "unit SpatialGrid"
  stationGrid :: "'s coord_scheme SpatialGrid"
  addressesWithDistances :: "('a, 's) address_distance list"
  hydrantsList :: "'h coord_scheme list"
  stationsList :: "'s coord_scheme list"

definition initial_state :: "('h, 's, 'a) worker_state" where
  "initial_state =
     \<lparr>hydrantGrid = new_SpatialGrid (Fin (5 / 1000)),
      stationGrid = new_SpatialGrid (Fin (1 / 100)),
      addressesWithDistances = [],
      hydrantsList = [],
      stationsList = []\<rparr>"

text \<open>The summary of \<open>addressDistancesReady\<close> (its counts carry the suffix \<open>_n\<close>).\<close>

record summary =
  within500ft_n :: nat
  within1000ft_n :: nat
  underserved_n :: nat
  withinStationMile_n :: nat
  avgDistance :: jsnum
  avgStationDistance :: jsnum
  pctWithin500 :: string
  pctWithin1000 :: string
  pctWithinStationMile :: string

text \<open>
  The \<open>stats\<close> object of \<open>analyzeZipCode\<close>. The fields that the source adds after
  creating the object are \<open>None\<close> until they are assigned.
\<close>

record stats =
  hydrantCount :: nat
  stationCount :: nat
  addressCount :: nat
  addressesWithin500ft :: nat
  addressesWithin1000ft :: nat
  addressesUnderserved :: nat
  addressesWithinStationMile :: nat
  avgDistanceToHydrant :: jsnum
  avgDistanceToStation :: jsnum
  minDistance :: jsnum
  maxDistance :: jsnum
  areaSqMiles :: jsnum
  addressDensity :: jsnum
  hydrantDensityPerSqMile :: jsnum
  isRural :: bool
  ruralNote :: "string option"
  coveragePercent500 :: "string option"
  coveragePercent1000 :: "string option"
  stationCoveragePercent :: "string option"
  hydrantDensity :: "string option"
  areaType :: "string option"

text \<open>
  The messages the worker posts. The \<open>elapsed\<close> field (a difference of two clock
  readings) is left out.
\<close>

datatype response =
    HydrantIndexReady nat
  | StationsIndexReady nat
  | Progress nat nat
  | AddressDistancesReady nat summary
  | ZipCodeAnalysisReady stats

fun hydrant_insert_loop :: "unit SpatialGrid \<Rightarrow> 'h coord_scheme list \<Rightarrow> unit SpatialGrid" where
  "hydrant_insert_loop g [] = g"
| "hydrant_insert_loop g (h # hs) = hydrant_insert_loop (insert_point g (lat h) (lon h) None) hs"

definition buildHydrantIndex ::
  "('h, 's, 'a) worker_state \<Rightarrow> 'h coord_scheme list \<Rightarrow> response list \<times> ('h, 's, 'a) worker_state"
where
  "buildHydrantIndex st hydrants =
     (let g = hydrant_insert_loop (clear (hydrantGrid st)) hydrants
      in ([HydrantIndexReady (length hydrants)],
          st\<lparr>hydrantGrid := g, hydrantsList := hydrants\<rparr>))"

fun station_insert_loop ::
  "'s coord_scheme SpatialGrid \<Rightarrow> 's coord_scheme list \<Rightarrow> 's coord_scheme SpatialGrid"
where
  "station_insert_loop g [] = g"
| "station_insert_loop g (s # ss) =
     station_insert_loop (insert_point g (lat s) (lon s) (Some s)) ss"

definition setStations ::
  "('h, 's, 'a) worker_state \<Rightarrow> 's coord_scheme list \<Rightarrow> response list \<times> ('h, 's, 'a) worker_state"
where
  "setStations st stations =
     (let g = station_insert_loop (clear (stationGrid st)) stations
      in ([StationsIndexReady (length stations)],
          st\<lparr>stationGrid := g, stationsList := stations\<rparr>))"

text \<open>The record pushed for one address in the loop of \<open>precomputeAddressDistances\<close>.\<close>

definition address_record ::
  "('h, 's, 'a) worker_state \<Rightarrow> 'a coord_scheme \<Rightarrow> ('a, 's) address_distance"
where
  "address_record st addr =
     (let ONE_MILE_FT = Fin 5280;
          nearestHydrant = findNearest (hydrantGrid st) (lat addr) (lon addr);
          nearestStation =
            (if length (stationsList st) > 0
             then findNearest (stationGrid st) (lat addr) (lon addr)
             else \<lparr>point = None, distance = PosInf\<rparr>)
      in \<lparr>lat = lat addr, lon = lon addr,
          addr_rest = coord.more addr,
          nearestHydrantDist = distance nearestHydrant,
          nearestStationDist = distance nearestStation,
          nearestStationData = (case point nearestStation of None \<Rightarrow> None | Some p \<Rightarrow> data p),
          within500ft = jle (distance nearestHydrant) (Fin 500),
          within1000ft = jle (distance nearestHydrant) (Fin 1000),
          underserved = jgt (distance nearestHydrant) (Fin 1000),
          withinStationMile = jle (distance nearestStation) ONE_MILE_FT\<rparr>)"

text \<open>
  The loop \<open>for (let i = 0; i < addresses.length; i++)\<close>: it pushes one record per
  address and posts a progress message after every 5000th.
\<close>

fun precompute_loop ::
  "('h, 's, 'a) worker_state \<Rightarrow> 'a coord_scheme list \<Rightarrow> nat \<Rightarrow> nat \<Rightarrow> response list
   \<Rightarrow> response list \<times> ('h, 's, 'a) worker_state"
where
  "precompute_loop st [] i len msgs = (msgs, st)"
| "precompute_loop st (addr # addrs) i len msgs =
     precompute_loop
       (st\<lparr>addressesWithDistances := addressesWithDistances st @ [address_record st addr]\<rparr>)
       addrs (i + 1) len
       (if (i + 1) mod 5000 = 0 then msgs @ [Progress (i + 1) len] else msgs)"

definition global_summary :: "('h, 's, 'a) worker_state \<Rightarrow> summary" where
  "global_summary st =
     (let table = addressesWithDistances st;
          n = Fin (real (length table));
          within500 = length (filter within500ft table);
          within1000 = length (filter within1000ft table);
          underserved_count = length (filter underserved table);
          withinStationMile_count = length (filter withinStationMile table);
          avgDist = jdiv (foldl (\<lambda>sum a. jadd sum (nearestHydrantDist a)) (Fin 0) table) n;
          avgStationDist =
            (if length (stationsList st) > 0
             then jdiv (foldl (\<lambda>sum a. jadd sum (nearestStationDist a)) (Fin 0) table) n
             else Fin 0)
      in \<lparr>within500ft_n = within500,
          within1000ft_n = within1000,
          underserved_n = underserved_count,
          withinStationMile_n = withinStationMile_count,
          avgDistance = avgDist,
          avgStationDistance = avgStationDist,
          pctWithin500 = toFixed1 (jmul (jdiv (Fin (real within500)) n) (Fin 100)),
          pctWithin1000 = toFixed1 (jmul (jdiv (Fin (real within1000)) n) (Fin 100)),
          pctWithinStationMile =
            (if length (stationsList st) > 0
             then toFixed1 (jmul (jdiv (Fin (real withinStationMile_count)) n) (Fin 100))
             else ''0'')\<rparr>)"

definition precomputeAddressDistances ::
  "('h, 's, 'a) worker_state \<Rightarrow> 'a coord_scheme list \<Rightarrow> response list \<times> ('h, 's, 'a) worker_state"
where
  "precomputeAddressDistances st addresses =
     (let (msgs, st') =
            precompute_loop (st\<lparr>addressesWithDistances := []\<rparr>) addresses 0 (length addresses) []
      in (msgs @ [AddressDistancesReady (length (addressesWithDistances st')) (global_summary st')],
          st'))"

subsection \<open>Zone analysis\<close>

definition initial_stats :: "jsnum \<Rightarrow> stats" where
  "initial_stats area =
     \<lparr>hydrantCount = 0, stationCount = 0, addressCount = 0,
      addressesWithin500ft = 0, addressesWithin1000ft = 0, addressesUnderserved = 0,
      addressesWithinStationMile = 0,
      avgDistanceToHydrant = Fin 0, avgDistanceToStation = Fin 0,
      minDistance = PosInf, maxDistance = Fin 0,
      areaSqMiles = area,
      addressDensity = Fin 0, hydrantDensityPerSqMile = Fin 0,
      isRural = False, ruralNote = None,
      coveragePercent500 = None, coveragePercent1000 = None,
      stationCoveragePercent = None, hydrantDensity = None, areaType = None\<rparr>"

text \<open>
  The three counting loops. A call of \<open>pointInPolygon\<close> that throws ends the handler
  (\<open>Inl\<close>).
\<close>

fun hydrant_count_loop :: "'h coord_scheme list \<Rightarrow> 'z feature_scheme \<Rightarrow> stats \<Rightarrow> error + stats" where
  "hydrant_count_loop [] zipCodeFeature s = Inr s"
| "hydrant_count_loop (h # hs) zipCodeFeature s =
     (case pointInPolygon (lat h) (lon h) zipCodeFeature of
        Inl e \<Rightarrow> Inl e
      | Inr b \<Rightarrow>
          hydrant_count_loop hs zipCodeFeature
            (if b then s\<lparr>hydrantCount := hydrantCount s + 1\<rparr> else s))"

fun station_count_loop :: "'s coord_scheme list \<Rightarrow> 'z feature_scheme \<Rightarrow> stats \<Rightarrow> error + stats" where
  "station_count_loop [] zipCodeFeature s = Inr s"
| "station_count_loop (x # xs) zipCodeFeature s =
     (case pointInPolygon (lat x) (lon x) zipCodeFeature of
        Inl e \<Rightarrow> Inl e
      | Inr b \<Rightarrow>
          station_count_loop xs zipCodeFeature
            (if b then s\<lparr>stationCount := stationCount s + 1\<rparr> else s))"

text \<open>The body of the address loop for an address inside the zone.\<close>

definition address_step ::
  "('a, 's) address_distance \<Rightarrow> stats \<times> jsnum \<times> jsnum \<Rightarrow> stats \<times> jsnum \<times> jsnum"
where
  "address_step addr acc =
     (let (s, totalHydrantDistance, totalStationDistance) = acc;
          s = s\<lparr>addressCount := addressCount s + 1\<rparr>;
          totalHydrantDistance = jadd totalHydrantDistance (nearestHydrantDist addr);
          totalStationDistance = jadd totalStationDistance (nearestStationDist addr);
          s = (if jlt (nearestHydrantDist addr) (minDistance s)
               then s\<lparr>minDistance := nearestHydrantDist addr\<rparr> else s);
          s = (if jgt (nearestHydrantDist addr) (maxDistance s)
               then s\<lparr>maxDistance := nearestHydrantDist addr\<rparr> else s);
          s = (if within500ft addr
               then s\<lparr>addressesWithin500ft := addressesWithin500ft s + 1\<rparr> else s);
          s = (if within1000ft addr
               then s\<lparr>addressesWithin1000ft := addressesWithin1000ft s + 1\<rparr> else s);
          s = (if underserved addr
               then s\<lparr>addressesUnderserved := addressesUnderserved s + 1\<rparr> else s);
          s = (if withinStationMile addr
               then s\<lparr>addressesWithinStationMile := addressesWithinStationMile s + 1\<rparr> else s)
      in (s, totalHydrantDistance, totalStationDistance))"

fun address_loop ::
  "('a, 's) address_distance list \<Rightarrow> 'z feature_scheme \<Rightarrow> stats \<times> jsnum \<times> jsnum
   \<Rightarrow> error + (stats \<times> jsnum \<times> jsnum)"
where
  "address_loop [] zipCodeFeature acc = Inr acc"
| "address_loop (addr # addrs) zipCodeFeature acc =
     (case pointInPolygon (lat addr) (lon addr) zipCodeFeature of
        Inl e \<Rightarrow> Inl e
      | Inr b \<Rightarrow>
          address_loop addrs zipCodeFeature (if b then address_step addr acc else acc))"

text \<open>\<open>if (stats.addressCount > 0) { ... } else { ... }\<close>.\<close>

definition coverage_fields :: "stats \<Rightarrow> jsnum \<Rightarrow> jsnum \<Rightarrow> stats" where
  "coverage_fields s totalHydrantDistance totalStationDistance =
     (let n = Fin (real (addressCount s))
      in if addressCount s > 0 then
           s\<lparr>avgDistanceToHydrant := jdiv totalHydrantDistance n,
             avgDistanceToStation := jdiv totalStationDistance n,
             coveragePercent500 :=
               Some (toFixed1 (jmul (jdiv (Fin (real (addressesWithin500ft s))) n) (Fin 100))),
             coveragePercent1000 :=
               Some (toFixed1 (jmul (jdiv (Fin (real (addressesWithin1000ft s))) n) (Fin 100))),
             stationCoveragePercent :=
               Some (toFixed1 (jmul (jdiv (Fin (real (addressesWithinStationMile s))) n) (Fin 100))),
             hydrantDensity :=
               Some (toFixed1 (jmul (jdiv (Fin (real (hydrantCount s))) n) (Fin 1000)))\<rparr>
         else
           s\<lparr>coveragePercent500 := Some ''0'',
             coveragePercent1000 := Some ''0'',
             stationCoveragePercent := Some ''0'',
             hydrantDensity := Some ''0''\<rparr>)"

text \<open>\<open>if (areaSqMiles > 0) { ... }\<close>: the densities and the classification.\<close>

definition density_fields :: "stats \<Rightarrow> jsnum \<Rightarrow> stats" where
  "density_fields s area =
     (if jgt area (Fin 0) then
        (let s = s\<lparr>addressDensity := jdiv (Fin (real (addressCount s))) area,
                    hydrantDensityPerSqMile := jdiv (Fin (real (hydrantCount s))) area\<rparr>
         in if jlt (addressDensity s) (Fin 100) then
              s\<lparr>isRural := True, areaType := Some ''Rural'',
                ruralNote := Some (''Low population density area. Fire departments may use '' @
                                   ''tanker trucks or draft water from natural sources.'')\<rparr>
            else if jlt (addressDensity s) (Fin 1000) then
              s\<lparr>areaType := Some ''Suburban'', ruralNote := None\<rparr>
            else
              s\<lparr>areaType := Some ''Urban'', ruralNote := None\<rparr>)
      else s)"

text \<open>
  \<open>analyzeZipCode\<close> returns what the handler posts, or the error it throws, and the
  worker's state after the call.
\<close>

definition analyzeZipCode ::
  "('h, 's, 'a) worker_state \<Rightarrow> 'z feature_scheme
   \<Rightarrow> (error + response list) \<times> ('h, 's, 'a) worker_state"
where
  "analyzeZipCode st zipCodeFeature =
     (case calculatePolygonArea zipCodeFeature of
        Inl e \<Rightarrow> (Inl e, st)
      | Inr area \<Rightarrow>
          (case hydrant_count_loop (hydrantsList st) zipCodeFeature (initial_stats area) of
             Inl e \<Rightarrow> (Inl e, st)
           | Inr s1 \<Rightarrow>
               (case station_count_loop (stationsList st) zipCodeFeature s1 of
                  Inl e \<Rightarrow> (Inl e, st)
                | Inr s2 \<Rightarrow>
                    (case address_loop (addressesWithDistances st) zipCodeFeature
                            (s2, Fin 0, Fin 0) of
                       Inl e \<Rightarrow> (Inl e, st)
                     | Inr (s3, totalHydrantDistance, totalStationDistance) \<Rightarrow>
                         (Inr [ZipCodeAnalysisReady
                                 (density_fields
                                    (coverage_fields s3 totalHydrantDistance totalStationDistance)
                                    area)],
                          st)))))"

subsection \<open>The message handler\<close>

datatype ('h, 's, 'a, 'z) request =
    BuildHydrantIndexMsg "'h coord_scheme list"
  | SetStationsMsg "'s coord_scheme list"
  | PrecomputeAddressDistancesMsg "'a coord_scheme list"
  | AnalyzeZipCodeMsg "'z feature_scheme"
  | OtherMsg string

definition onmessage ::
  "('h, 's, 'a) worker_state \<Rightarrow> ('h, 's, 'a, 'z) request
   \<Rightarrow> (error + response list) \<times> ('h, 's, 'a) worker_state"
where
  "onmessage st e =
     (case e of
        BuildHydrantIndexMsg hydrants \<Rightarrow>
          (let (msgs, st') = buildHydrantIndex st hydrants in (Inr msgs, st'))
      | SetStationsMsg stations \<Rightarrow>
          (let (msgs, st') = setStations st stations in (Inr msgs, st'))
      | PrecomputeAddressDistancesMsg addresses \<Rightarrow>
          (let (msgs, st') = precomputeAddressDistances st addresses in (Inr msgs, st'))
      | AnalyzeZipCodeMsg zipCodeFeature \<Rightarrow> analyzeZipCode st zipCodeFeature
      | OtherMsg t \<Rightarrow> (Inr [], st))"

section \<open>Predicates of the statements\<close>

text \<open>
  A feature whose geometry has the rings the worker reads: a \<open>Polygon\<close> with at least
  its outer ring, a \<open>MultiPolygon\<close> whose polygons all have one. The worker throws on
  the others.
\<close>

definition has_rings :: "'z feature_scheme \<Rightarrow> bool" where
  "has_rings z =
     (case geometry z of
        Polygon coordinates \<Rightarrow> coordinates \<noteq> []
      | MultiPolygon coordinates \<Rightarrow> [] \<notin> set coordinates
      | OtherGeometry t \<Rightarrow> True)"

text \<open>A number that is finite or \<open>+Infinity\<close>: what a nearest-point query returns as distance.\<close>

fun fin_or_inf :: "jsnum \<Rightarrow> bool" where
  "fin_or_inf (Fin x) = True"
| "fin_or_inf PosInf = True"
| "fin_or_inf NegInf = False"
| "fin_or_inf NaN = False"

text \<open>
  Closing a ring: a copy of its first vertex is appended. \<open>close_geometry\<close> closes
  the outer ring of a polygon, and of every polygon of a multi-polygon.
\<close>

definition close_ring :: "ring \<Rightarrow> ring" where
  "close_ring r = (case r of [] \<Rightarrow> [] | v # _ \<Rightarrow> r @ [v])"

definition close_polygon :: "ring list \<Rightarrow> ring list" where
  "close_polygon p = (case p of [] \<Rightarrow> [] | r # holes \<Rightarrow> close_ring r # holes)"

definition close_geometry :: "geometry \<Rightarrow> geometry" where
  "close_geometry geo =
     (case geo of
        Polygon coordinates \<Rightarrow> Polygon (close_polygon coordinates)
      | MultiPolygon coordinates \<Rightarrow> MultiPolygon (map close_polygon coordinates)
      | OtherGeometry t \<Rightarrow> OtherGeometry t)"

text \<open>
  A zone of few vertices: its kind is neither \<open>Polygon\<close> nor \<open>MultiPolygon\<close>, or
  every outer ring it has consists of fewer than \<open>n\<close> vertices.
\<close>

definition few_vertices :: "nat \<Rightarrow> 'z feature_scheme \<Rightarrow> bool" where
  "few_vertices n z =
     (case geometry z of
        Polygon coordinates \<Rightarrow> (case coordinates of [] \<Rightarrow> False | r # holes \<Rightarrow> length r < n)
      | MultiPolygon coordinates \<Rightarrow>
          list_all (\<lambda>p. case p of [] \<Rightarrow> False | r # holes \<Rightarrow> length r < n) coordinates
      | OtherGeometry t \<Rightarrow> True)"

text \<open>A finite number (\<open>Number.isFinite\<close>).\<close>

fun is_finite :: "jsnum \<Rightarrow> bool" where
  "is_finite (Fin x) = True"
| "is_finite _ = False"

text \<open>The quantity \<open>a\<close> that \<open>haversineDistance\<close> computes on finite coordinates.\<close>

definition haversine_a :: "real \<Rightarrow> real \<Rightarrow> real \<Rightarrow> real \<Rightarrow> real" where
  "haversine_a lat1 lon1 lat2 lon2 =
     sin ((lat2 - lat1) * pi / 180 / 2) * sin ((lat2 - lat1) * pi / 180 / 2) +
     cos (lat1 * pi / 180) * cos (lat2 * pi / 180) *
       sin ((lon2 - lon1) * pi / 180 / 2) * sin ((lon2 - lon1) * pi / 180 / 2)"

text \<open>
  Inserting a list of points, one call of \<open>insert\<close> per point, in the order of the
  list. An index built from \<open>ps\<close> is \<open>insert_all (clear g) ps\<close>.
\<close>

fun insert_all :: "'d SpatialGrid \<Rightarrow> 'd point list \<Rightarrow> 'd SpatialGrid" where
  "insert_all g [] = g"
| "insert_all g (p # ps) = insert_all (insert_point g (lat p) (lon p) (data p)) ps"

text \<open>
  The reference the specification compares \<open>findNearest\<close> with: the minimum distance
  found by a brute-force scan over the whole point set.
\<close>

definition brute_force_distance :: "jsnum \<Rightarrow> jsnum \<Rightarrow> 'd point list \<Rightarrow> jsnum" where
  "brute_force_distance qlat qlon ps =
     fold (\<lambda>p best. if jlt (haversineDistance qlat qlon (lat p) (lon p)) best
                     then haversineDistance qlat qlon (lat p) (lon p) else best) ps PosInf"

section \<open>Concrete inputs\<close>

text \<open>A hydrant, and the worker after it has indexed that single hydrant.\<close>

definition demo_hydrant :: coord where
  "demo_hydrant = \<lparr>lat = Fin (1929 / 50), lon = Fin (- (12149 / 100))\<rparr>"

definition demo_state :: "(unit, unit, unit) worker_state" where
  "demo_state = snd (buildHydrantIndex initial_state [demo_hydrant])"

text \<open>The unit square as an unclosed ring, and the worker after one address was precomputed.\<close>

definition unit_square :: feature where
  "unit_square =
     \<lparr>geometry = Polygon [[(Fin 0, Fin 0), (Fin 1, Fin 0), (Fin 1, Fin 1), (Fin 0, Fin 1)]]\<rparr>"

definition demo_table_state :: "(unit, unit, unit) worker_state" where
  "demo_table_state = snd (precomputeAddressDistances demo_state [demo_hydrant])"

text \<open>Rings with one, two and three vertices, as \<open>[lon, lat]\<close> pairs.\<close>

definition one_vertex_polygon :: feature where
  "one_vertex_polygon = \<lparr>geometry = Polygon [[(Fin 3, Fin 4)]]\<rparr>"

definition two_vertex_ring :: ring where
  "two_vertex_ring = [(Fin 1, Fin (- 1)), (Fin 1, Fin 1)]"

definition open_triangle :: ring where
  "open_triangle = [(Fin 1, Fin 0), (Fin 2, Fin 1), (Fin 2, Fin (- 1))]"

text \<open>
  Two points on the meridian of the query \<open>(0.0049, 0.002)\<close>: \<open>point_A\<close> one cell
  south of the query's cell, \<open>point_B\<close> two cells north of it and nearer.
\<close>

definition point_A :: "unit point" where
  "point_A = \<lparr>lat = Fin (- (49 / 10000)), lon = Fin (1 / 500), data = None\<rparr>"

definition point_B :: "unit point" where
  "point_B = \<lparr>lat = Fin (101 / 10000), lon = Fin (1 / 500), data = None\<rparr>"

definition grid_AB :: "unit SpatialGrid" where
  "grid_AB = insert_all (clear (new_SpatialGrid (Fin (1 / 200)))) [point_A, point_B]"

text \<open>Two stations at the same position, indexed in both orders.\<close>

definition station_1 :: "string point" where
  "station_1 = \<lparr>lat = Fin (1929 / 50), lon = Fin (- (12149 / 100)), data = Some ''Station 1''\<rparr>"

definition station_2 :: "string point" where
  "station_2 = \<lparr>lat = Fin (1929 / 50), lon = Fin (- (12149 / 100)), data = Some ''Station 2''\<rparr>"

definition grid_12 :: "string SpatialGrid" where
  "grid_12 = insert_all (clear (new_SpatialGrid (Fin (1 / 100)))) [station_1, station_2]"

definition grid_21 :: "string SpatialGrid" where
  "grid_21 = insert_all (clear (new_SpatialGrid (Fin (1 / 100)))) [station_2, station_1]"

text \<open>
  A point two cells south of the cell of the query \<open>(0.0049, 0.002)\<close> and farther
  from it than \<open>point_B\<close>, and the index of the two; a point without coordinates and
  its index.
\<close>

definition point_C :: "unit point" where
  "point_C = \<lparr>lat = Fin (- (51 / 10000)), lon = Fin (1 / 500), data = None\<rparr>"

definition grid_CB :: "unit SpatialGrid" where
  "grid_CB = insert_all (clear (new_SpatialGrid (Fin (1 / 200)))) [point_C, point_B]"

definition nan_point :: "unit point" where
  "nan_point = \<lparr>lat = NaN, lon = NaN, data = None\<rparr>"

definition grid_nan :: "unit SpatialGrid" where
  "grid_nan = insert_all (clear (new_SpatialGrid (Fin (1 / 200)))) [nan_point]"

section \<open>Properties\<close>

subsection \<open>Zone analysis reads the state only\<close>

text \<open>
  Claim C10. Zone analysis is a pure read of the engine state: whatever the polygon,
  and whether the handler posts its result or throws, the worker's state after
  \<open>analyzeZipCode\<close> (both grid indexes, the hydrant and station lists, and the table
  of address records) is the state before it. The same holds for the call through
  the message handler.
\<close>

theorem analyzeZipCode_frame:
  "snd (analyzeZipCode st zipCodeFeature) = st \<and>
   snd (onmessage st (AnalyzeZipCodeMsg zipCodeFeature)) = st"
  by (simp add: analyzeZipCode_def onmessage_def split: sum.splits prod.splits)

subsection \<open>The precomputed table\<close>

lemma address_record_table_irrelevant:
  "address_record (st\<lparr>addressesWithDistances := t\<rparr>) addr = address_record st addr"
  by (simp add: address_record_def)

lemma precompute_loop_table:
  "snd (precompute_loop st addrs i len msgs) =
     st\<lparr>addressesWithDistances := addressesWithDistances st @ map (address_record st) addrs\<rparr>"
proof (induction addrs arbitrary: st i msgs)
  case Nil
  show ?case by simp
next
  case (Cons a addrs)
  show ?case
    by (simp add: Cons.IH address_record_table_irrelevant)
qed

lemma precompute_state:
  "snd (precomputeAddressDistances st addresses) =
     st\<lparr>addressesWithDistances := map (address_record st) addresses\<rparr>"
proof -
  have "snd (precomputeAddressDistances st addresses) =
        snd (precompute_loop (st\<lparr>addressesWithDistances := []\<rparr>) addresses 0 (length addresses) [])"
    by (simp add: precomputeAddressDistances_def split: prod.splits)
  then show ?thesis
    by (simp add: precompute_loop_table address_record_table_irrelevant)
qed

lemma precompute_table:
  "addressesWithDistances (snd (precomputeAddressDistances st addresses)) =
     map (address_record st) addresses"
  by (simp add: precompute_state)

lemma jle_500_1000: "jle d (Fin 500) \<Longrightarrow> jle d (Fin 1000)"
  by (cases d) (simp_all add: jle_def)

text \<open>
  Claim C3. For the \<open>i\<close>-th address of the precomputation pass, the record holds the
  distance of the nearest hydrant found by the hydrant index and the distance of the
  nearest station (infinite when no station is set), and its flags are exactly
  \<open>within500ft = (d <= 500)\<close>, \<open>within1000ft = (d <= 1000)\<close>,
  \<open>underserved = (d > 1000)\<close> and \<open>withinStationMile = (s <= 5280)\<close>, with inclusive
  bounds; so \<open>within500ft\<close> implies \<open>within1000ft\<close>.
\<close>

theorem precompute_flags:
  assumes "i < length addresses"
  shows "(let r = addressesWithDistances (snd (precomputeAddressDistances st addresses)) ! i;
              a = addresses ! i
          in nearestHydrantDist r = distance (findNearest (hydrantGrid st) (lat a) (lon a)) \<and>
             nearestStationDist r =
               (if stationsList st = [] then PosInf
                else distance (findNearest (stationGrid st) (lat a) (lon a))) \<and>
             within500ft r = jle (nearestHydrantDist r) (Fin 500) \<and>
             within1000ft r = jle (nearestHydrantDist r) (Fin 1000) \<and>
             underserved r = jgt (nearestHydrantDist r) (Fin 1000) \<and>
             withinStationMile r = jle (nearestStationDist r) (Fin 5280) \<and>
             (within500ft r \<longrightarrow> within1000ft r))"
  using assms
  by (simp add: precompute_table Let_def address_record_def jle_500_1000)

lemma haversine_same_point: "haversineDistance (Fin x) (Fin y) (Fin x) (Fin y) = Fin 0"
  by (simp add: haversineDistance_def jsub_def Math_PI_def atan2_real_def)

lemma demo_nearby:
  "getNearbyPoints (hydrantGrid demo_state) (Fin (1929 / 50)) (Fin (- (12149 / 100))) 1 =
     [\<lparr>lat = Fin (1929 / 50), lon = Fin (- (12149 / 100)), data = None\<rparr>]"
  by (simp add: demo_state_def demo_hydrant_def buildHydrantIndex_def initial_state_def
      getNearbyPoints_def getCell_def insert_point_def bucket_def clear_def new_SpatialGrid_def
      Let_def upto.simps)

lemma demo_nearest:
  "findNearest (hydrantGrid demo_state) (Fin (1929 / 50)) (Fin (- (12149 / 100))) =
     \<lparr>point = Some \<lparr>lat = Fin (1929 / 50), lon = Fin (- (12149 / 100)), data = None\<rparr>,
      distance = Fin 0\<rparr>"
  by (simp add: findNearest_def findNearest_from.simps[of _ _ _ "Suc 0"] demo_nearby
      haversine_same_point)

text \<open>
  The theorem at an address on the hydrant itself, with no station set: distance 0,
  within 500 and 1000 feet, not underserved, and no station within a mile.
\<close>

theorem precompute_flags_witness:
  "(0::nat) < length [demo_hydrant] \<and>
   (let r = addressesWithDistances (snd (precomputeAddressDistances demo_state [demo_hydrant])) ! 0
    in nearestHydrantDist r = Fin 0 \<and> within500ft r \<and> within1000ft r \<and> \<not> underserved r \<and>
       nearestStationDist r = PosInf \<and> \<not> withinStationMile r)"
proof -
  let ?r = "addressesWithDistances (snd (precomputeAddressDistances demo_state [demo_hydrant])) ! 0"
  have len: "(0::nat) < length [demo_hydrant]"
    by simp
  have d: "distance (findNearest (hydrantGrid demo_state) (lat demo_hydrant) (lon demo_hydrant)) = Fin 0"
    by (simp add: demo_hydrant_def demo_nearest)
  have s: "stationsList demo_state = []"
    by (simp add: demo_state_def buildHydrantIndex_def initial_state_def)
  from precompute_flags [OF len, of demo_state]
  have "nearestHydrantDist ?r = Fin 0 \<and> nearestStationDist ?r = PosInf \<and>
        within500ft ?r = jle (nearestHydrantDist ?r) (Fin 500) \<and>
        within1000ft ?r = jle (nearestHydrantDist ?r) (Fin 1000) \<and>
        underserved ?r = jgt (nearestHydrantDist ?r) (Fin 1000) \<and>
        withinStationMile ?r = jle (nearestStationDist ?r) (Fin 5280)"
    by (simp add: Let_def d s)
  then show ?thesis
    by (simp add: Let_def jle_def jgt_def)
qed

subsection \<open>Zone analysis without addresses\<close>

lemma first_ring_None: "first_ring p = None \<longleftrightarrow> p = []"
  by (simp add: first_ring_def split: list.splits)

lemma first_ring_None': "None = first_ring p \<longleftrightarrow> p = []"
  by (simp add: first_ring_def split: list.splits)

lemma rings_loop_returns: "None \<notin> set rings \<Longrightarrow> \<exists>b. rings_loop rings qlat qlon = Inr b"
  by (induction rings qlat qlon rule: rings_loop.induct) auto

lemma pointInPolygon_returns:
  assumes "has_rings z"
  shows "\<exists>b. pointInPolygon qlat qlon z = Inr b"
proof (cases "geometry z")
  case (Polygon cs)
  with assms have "None \<notin> set [first_ring cs]"
    by (simp add: has_rings_def first_ring_None')
  from rings_loop_returns [OF this] Polygon show ?thesis
    by (simp add: pointInPolygon_def)
next
  case (MultiPolygon ps)
  with assms have "None \<notin> set (map first_ring ps)"
    by (auto simp: has_rings_def first_ring_None')
  from rings_loop_returns [OF this] MultiPolygon show ?thesis
    by (simp add: pointInPolygon_def)
next
  case (OtherGeometry t)
  then have "pointInPolygon qlat qlon z = Inr False" by (simp add: pointInPolygon_def)
  then show ?thesis ..
qed

lemma calculateRingArea_returns: "r \<noteq> None \<Longrightarrow> \<exists>a. calculateRingArea r = Inr a"
  by (cases r) (simp_all add: calculateRingArea_def Let_def)

lemma multi_area_loop_returns:
  "[] \<notin> set polys \<Longrightarrow> \<exists>a. multi_area_loop polys acc = Inr a"
proof (induction polys arbitrary: acc)
  case Nil
  show ?case by simp
next
  case (Cons p polys)
  then have "first_ring p \<noteq> None" by (auto simp: first_ring_None)
  from calculateRingArea_returns [OF this] obtain a where "calculateRingArea (first_ring p) = Inr a" ..
  with Cons show ?case by simp
qed

lemma calculatePolygonArea_returns:
  assumes "has_rings z"
  shows "\<exists>a. calculatePolygonArea z = Inr a"
proof (cases "geometry z")
  case (Polygon cs)
  with assms have "first_ring cs \<noteq> None" by (simp add: has_rings_def first_ring_None)
  from calculateRingArea_returns [OF this] Polygon show ?thesis
    by (simp add: calculatePolygonArea_def)
next
  case (MultiPolygon ps)
  with assms have "[] \<notin> set ps" by (simp add: has_rings_def)
  from multi_area_loop_returns [OF this] MultiPolygon show ?thesis
    by (simp add: calculatePolygonArea_def)
next
  case (OtherGeometry t)
  then show ?thesis by (simp add: calculatePolygonArea_def)
qed

lemma hydrant_count_loop_returns:
  assumes "has_rings z"
  shows "\<exists>n. hydrant_count_loop hs z s = Inr (s\<lparr>hydrantCount := n\<rparr>)"
proof (induction hs arbitrary: s)
  case Nil
  have "s = s\<lparr>hydrantCount := hydrantCount s\<rparr>" by simp
  then show ?case by (metis hydrant_count_loop.simps(1))
next
  case (Cons h hs)
  from pointInPolygon_returns [OF assms] obtain b
    where b: "pointInPolygon (lat h) (lon h) z = Inr b" by blast
  from Cons [of "if b then s\<lparr>hydrantCount := hydrantCount s + 1\<rparr> else s"] b
  show ?case by (cases b) auto
qed

lemma station_count_loop_returns:
  assumes "has_rings z"
  shows "\<exists>n. station_count_loop xs z s = Inr (s\<lparr>stationCount := n\<rparr>)"
proof (induction xs arbitrary: s)
  case Nil
  have "s = s\<lparr>stationCount := stationCount s\<rparr>" by simp
  then show ?case by (metis station_count_loop.simps(1))
next
  case (Cons x xs)
  from pointInPolygon_returns [OF assms] obtain b
    where b: "pointInPolygon (lat x) (lon x) z = Inr b" by blast
  from Cons [of "if b then s\<lparr>stationCount := stationCount s + 1\<rparr> else s"] b
  show ?case by (cases b) auto
qed

lemma address_loop_none_inside:
  assumes "has_rings z"
    and "\<forall>a\<in>set addrs. pointInPolygon (lat a) (lon a) z \<noteq> Inr True"
  shows "address_loop addrs z acc = Inr acc"
  using assms(2)
proof (induction addrs)
  case Nil
  show ?case by simp
next
  case (Cons a addrs)
  from pointInPolygon_returns [OF assms(1)] obtain b
    where b: "pointInPolygon (lat a) (lon a) z = Inr b" by blast
  with Cons.prems have "\<not> b" by auto
  with b Cons show ?case by simp
qed

text \<open>
  Claim C9. For a zone polygon that contains none of the precomputed address records,
  zone analysis posts its statistics with \<open>addressCount = 0\<close>, the three coverage
  percentages and \<open>hydrantDensity\<close> equal to the string \<open>0\<close>, and both average
  distances equal to the number 0: no field results from a division by zero.
\<close>

theorem zone_without_addresses:
  assumes "has_rings z"
    and "\<forall>a\<in>set (addressesWithDistances st). pointInPolygon (lat a) (lon a) z \<noteq> Inr True"
  shows "\<exists>s. fst (analyzeZipCode st z) = Inr [ZipCodeAnalysisReady s] \<and>
             addressCount s = 0 \<and>
             coveragePercent500 s = Some ''0'' \<and>
             coveragePercent1000 s = Some ''0'' \<and>
             stationCoveragePercent s = Some ''0'' \<and>
             hydrantDensity s = Some ''0'' \<and>
             avgDistanceToHydrant s = Fin 0 \<and>
             avgDistanceToStation s = Fin 0"
proof -
  from calculatePolygonArea_returns [OF assms(1)] obtain area
    where area: "calculatePolygonArea z = Inr area" ..
  define s0 where "s0 = initial_stats area"
  from hydrant_count_loop_returns [OF assms(1)] obtain n
    where h: "hydrant_count_loop (hydrantsList st) z s0 = Inr (s0\<lparr>hydrantCount := n\<rparr>)"
    by blast
  from station_count_loop_returns [OF assms(1)] obtain m
    where s: "station_count_loop (stationsList st) z (s0\<lparr>hydrantCount := n\<rparr>) =
                Inr (s0\<lparr>hydrantCount := n, stationCount := m\<rparr>)"
    by blast
  note a = address_loop_none_inside [OF assms]
  have "fst (analyzeZipCode st z) =
          Inr [ZipCodeAnalysisReady
                 (density_fields
                    (coverage_fields (s0\<lparr>hydrantCount := n, stationCount := m\<rparr>) (Fin 0) (Fin 0))
                    area)]"
    by (simp add: analyzeZipCode_def area h s a flip: s0_def)
  then show ?thesis
    by (simp add: coverage_fields_def density_fields_def s0_def initial_stats_def Let_def)
qed

text \<open>
  The theorem at the unit square and a table whose single address lies outside it.
\<close>

lemma unit_square_outside:
  "pointInPolygon (Fin (1929 / 50)) (Fin (- (12149 / 100))) unit_square = Inr False"
  by (simp add: pointInPolygon_def unit_square_def first_ring_def ring_loop.simps crosses_def jgt_def)

theorem zone_without_addresses_witness:
  "has_rings unit_square \<and>
   (\<exists>s. fst (analyzeZipCode demo_table_state unit_square) = Inr [ZipCodeAnalysisReady s] \<and>
             addressCount s = 0 \<and>
             coveragePercent500 s = Some ''0'' \<and>
             coveragePercent1000 s = Some ''0'' \<and>
             stationCoveragePercent s = Some ''0'' \<and>
             hydrantDensity s = Some ''0'' \<and>
             avgDistanceToHydrant s = Fin 0 \<and>
             avgDistanceToStation s = Fin 0)"
proof -
  have r: "has_rings unit_square"
    by (simp add: has_rings_def unit_square_def)
  have t: "addressesWithDistances demo_table_state = [address_record demo_state demo_hydrant]"
    by (simp add: demo_table_state_def precompute_table)
  have o: "\<forall>a\<in>set (addressesWithDistances demo_table_state).
             pointInPolygon (lat a) (lon a) unit_square \<noteq> Inr True"
    by (simp add: t address_record_def demo_hydrant_def unit_square_outside Let_def)
  from zone_without_addresses [OF r o] r show ?thesis
    by simp
qed

subsection \<open>The global summary\<close>

lemma Math_atan2_not_inf: "Math_atan2 y x \<noteq> PosInf \<and> Math_atan2 y x \<noteq> NegInf"
  by (cases y; cases x) simp_all

lemma haversine_cases:
  "haversineDistance a b c d = NaN \<or> (\<exists>r. haversineDistance a b c d = Fin r)"
proof -
  define u where "u = haversineDistance a b c d"
  obtain y x where "u = jmul (Fin 20902231) (jmul (Fin 2) (Math_atan2 y x))"
    unfolding u_def haversineDistance_def Let_def by blast
  with Math_atan2_not_inf [of y x] show ?thesis
    unfolding u_def by (cases "Math_atan2 y x") simp_all
qed

lemma nearest_scan_fin_or_inf:
  "fin_or_inf b \<Longrightarrow> fin_or_inf (distance (nearest_scan qlat qlon ps b bp))"
proof (induction ps arbitrary: b bp)
  case Nil
  then show ?case by simp
next
  case (Cons p ps)
  show ?case
  proof (cases "jlt (haversineDistance qlat qlon (lat p) (lon p)) b")
    case True
    with haversine_cases [of qlat qlon "lat p" "lon p"]
    have "fin_or_inf (haversineDistance qlat qlon (lat p) (lon p))" by auto
    from Cons.IH [OF this] True show ?thesis by (simp add: Let_def)
  next
    case False
    with Cons show ?thesis by (simp add: Let_def)
  qed
qed

lemma findNearest_from_fin_or_inf:
  "fin_or_inf (distance (findNearest_from g qlat qlon radius))"
proof (induction g qlat qlon radius rule: findNearest_from.induct)
  case (1 g qlat qlon radius)
  show ?case
    using "1.IH"
    by (subst findNearest_from.simps) (simp add: Let_def nearest_scan_fin_or_inf)
qed

lemma findNearest_fin_or_inf: "fin_or_inf (distance (findNearest g qlat qlon))"
  by (simp add: findNearest_def findNearest_from_fin_or_inf)

lemma address_record_fin_or_inf:
  "fin_or_inf (nearestHydrantDist (address_record st a)) \<and>
   fin_or_inf (nearestStationDist (address_record st a))"
  by (simp add: address_record_def Let_def findNearest_fin_or_inf)

lemma jadd_fin_or_inf: "fin_or_inf a \<Longrightarrow> fin_or_inf b \<Longrightarrow> fin_or_inf (jadd a b)"
  by (cases a; cases b) simp_all

lemma foldl_jadd_fin_or_inf:
  "fin_or_inf acc \<Longrightarrow> \<forall>a\<in>set xs. fin_or_inf (f a) \<Longrightarrow>
   fin_or_inf (foldl (\<lambda>sum a. jadd sum (f a)) acc xs)"
  by (induction xs arbitrary: acc) (simp_all add: jadd_fin_or_inf)

lemma jdiv_fin_or_inf: "fin_or_inf a \<Longrightarrow> 0 < n \<Longrightarrow> fin_or_inf (jdiv a (Fin n))"
  by (cases a) simp_all

lemma fin_or_inf_not_NaN: "fin_or_inf a \<Longrightarrow> a \<noteq> NaN"
  by (cases a) simp_all

text \<open>The formatting on some values, ties and a negative number included.\<close>

lemma toFixed1_examples:
  "toFixed1 (Fin 100) = ''100.0'' \<and> toFixed1 (Fin (100 / 3)) = ''33.3'' \<and>
   toFixed1 (Fin 0) = ''0.0'' \<and> toFixed1 (Fin (1 / 4)) = ''0.3'' \<and>
   toFixed1 (Fin (- (1 / 25))) = ''-0.0'' \<and> toFixed1 (Fin (2000 / 3)) = ''666.7''"
  by (simp add: Let_def digits.simps digit_def)

lemma toFixed1_Fin_not_NaN: "toFixed1 (Fin x) \<noteq> ''NaN''"
proof
  assume "toFixed1 (Fin x) = ''NaN''"
  moreover have "CHR ''.'' \<in> set (toFixed1 (Fin x))"
    by (simp add: Let_def)
  ultimately show False by simp
qed

lemma percent_not_NaN: "0 < n \<Longrightarrow> toFixed1 (jmul (jdiv (Fin c) (Fin n)) (Fin 100)) \<noteq> ''NaN''"
  using toFixed1_Fin_not_NaN [of "c / n * 100"] by simp

lemma precompute_posts:
  "\<exists>progress. fst (precomputeAddressDistances st addresses) =
     progress @ [AddressDistancesReady (length addresses)
                   (global_summary (snd (precomputeAddressDistances st addresses)))]"
proof -
  obtain msgs st' where l:
    "precompute_loop (st\<lparr>addressesWithDistances := []\<rparr>) addresses 0 (length addresses) [] = (msgs, st')"
    by (cases "precompute_loop (st\<lparr>addressesWithDistances := []\<rparr>) addresses 0 (length addresses) []")
  then have p: "precomputeAddressDistances st addresses =
      (msgs @ [AddressDistancesReady (length (addressesWithDistances st')) (global_summary st')], st')"
    by (simp add: precomputeAddressDistances_def)
  from precompute_table [of st addresses] p
  have "length (addressesWithDistances st') = length addresses" by simp
  with p show ?thesis by simp
qed

text \<open>
  Claim C1, as amended. The precomputation divides by the number of addresses without
  a guard of its own; the hook that sends the request skips it when the address list
  is empty. For every non-empty address list, the handler ends by posting the summary
  of all addresses, and none of its average and percentage fields is NaN.
\<close>

theorem summary_nonempty_addresses:
  assumes "addresses \<noteq> []"
  shows "\<exists>progress s.
           fst (precomputeAddressDistances st addresses) =
             progress @ [AddressDistancesReady (length addresses) s] \<and>
           avgDistance s \<noteq> NaN \<and> avgStationDistance s \<noteq> NaN \<and>
           pctWithin500 s \<noteq> ''NaN'' \<and> pctWithin1000 s \<noteq> ''NaN'' \<and>
           pctWithinStationMile s \<noteq> ''NaN''"
proof -
  let ?st = "snd (precomputeAddressDistances st addresses)"
  let ?t = "map (address_record st) addresses"
  have t: "addressesWithDistances ?st = ?t" by (rule precompute_table)
  have sl: "stationsList ?st = stationsList st" by (simp add: precompute_state)
  from assms have n: "0 < real (length ?t)" by simp
  have "fin_or_inf (foldl (\<lambda>sum a. jadd sum (nearestHydrantDist a)) (Fin 0) ?t)"
    by (rule foldl_jadd_fin_or_inf) (simp_all add: address_record_fin_or_inf)
  from fin_or_inf_not_NaN [OF jdiv_fin_or_inf [OF this n]]
  have a1: "avgDistance (global_summary ?st) \<noteq> NaN"
    by (simp add: global_summary_def Let_def t)
  have "fin_or_inf (foldl (\<lambda>sum a. jadd sum (nearestStationDist a)) (Fin 0) ?t)"
    by (rule foldl_jadd_fin_or_inf) (simp_all add: address_record_fin_or_inf)
  from fin_or_inf_not_NaN [OF jdiv_fin_or_inf [OF this n]]
  have a2: "avgStationDistance (global_summary ?st) \<noteq> NaN"
    by (simp add: global_summary_def Let_def t)
  have p1: "pctWithin500 (global_summary ?st) \<noteq> ''NaN''"
    using percent_not_NaN [OF n] assms by (simp add: global_summary_def Let_def t)
  have p2: "pctWithin1000 (global_summary ?st) \<noteq> ''NaN''"
    using percent_not_NaN [OF n] assms by (simp add: global_summary_def Let_def t)
  have p3: "pctWithinStationMile (global_summary ?st) \<noteq> ''NaN''"
    using percent_not_NaN [OF n] assms by (simp add: global_summary_def Let_def t)
  from precompute_posts [of st addresses] a1 a2 p1 p2 p3 show ?thesis
    by blast
qed

text \<open>
  Claim C1 as stated fails: on an empty address list the summary holds \<open>0/0\<close>, that is
  NaN, as average hydrant distance and as both hydrant percentages, and also as average
  station distance and station percentage once a station is set.
\<close>

theorem summary_empty_addresses_counterexample:
  "fst (precomputeAddressDistances demo_state []) =
     [AddressDistancesReady 0
        \<lparr>within500ft_n = 0, within1000ft_n = 0, underserved_n = 0, withinStationMile_n = 0,
         avgDistance = NaN, avgStationDistance = Fin 0,
         pctWithin500 = ''NaN'', pctWithin1000 = ''NaN'', pctWithinStationMile = ''0''\<rparr>] \<and>
   fst (precomputeAddressDistances (snd (setStations demo_state [demo_hydrant])) []) =
     [AddressDistancesReady 0
        \<lparr>within500ft_n = 0, within1000ft_n = 0, underserved_n = 0, withinStationMile_n = 0,
         avgDistance = NaN, avgStationDistance = NaN,
         pctWithin500 = ''NaN'', pctWithin1000 = ''NaN'', pctWithinStationMile = ''NaN''\<rparr>]"
  by (simp add: precomputeAddressDistances_def global_summary_def demo_state_def
      buildHydrantIndex_def setStations_def initial_state_def)

text \<open>The theorem at a list of one address.\<close>

theorem summary_nonempty_addresses_witness:
  "[demo_hydrant] \<noteq> [] \<and>
   (\<exists>progress s.
           fst (precomputeAddressDistances demo_state [demo_hydrant]) =
             progress @ [AddressDistancesReady 1 s] \<and>
           avgDistance s \<noteq> NaN \<and> avgStationDistance s \<noteq> NaN \<and>
           pctWithin500 s \<noteq> ''NaN'' \<and> pctWithin1000 s \<noteq> ''NaN'' \<and>
           pctWithinStationMile s \<noteq> ''NaN'')"
  using summary_nonempty_addresses [of "[demo_hydrant]" demo_state] by simp

subsection \<open>Ring closure\<close>

lemma crosses_same: "\<not> crosses qlat qlon v v"
  by (simp add: crosses_def)

lemma ring_loop_flip:
  "ring_loop coords qlat qlon i j (\<not> inside) = (\<not> ring_loop coords qlat qlon i j inside)"
proof (induction coords qlat qlon i j inside rule: ring_loop.induct)
  case (1 coords qlat qlon i j inside)
  show ?case
  proof (cases "i < length coords")
    case True
    with "1.IH" show ?thesis
      by (subst (1 2) ring_loop.simps)
        (cases "crosses qlat qlon (coords ! i) (coords ! j)"; simp)
  next
    case False
    then show ?thesis
      by (subst (1 2) ring_loop.simps) simp
  qed
qed

lemma ring_loop_append:
  "0 < i \<Longrightarrow> i \<le> length r \<Longrightarrow>
   ring_loop (r @ [v]) qlat qlon i (i - 1) inside =
     (if crosses qlat qlon v (r ! (length r - 1))
      then \<not> ring_loop r qlat qlon i (i - 1) inside
      else ring_loop r qlat qlon i (i - 1) inside)"
proof (induction "length r - i" arbitrary: i inside)
  case 0
  then have i: "i = length r" by simp
  have "ring_loop (r @ [v]) qlat qlon (length r + 1) (length r) b = b" for b
    by (subst ring_loop.simps) simp
  moreover have "ring_loop r qlat qlon (length r) (length r - 1) inside = inside"
    by (subst ring_loop.simps) simp
  ultimately show ?case
    using "0.prems" unfolding i by (subst ring_loop.simps) (simp add: nth_append)
next
  case (Suc n)
  then have lt: "i < length r" and n: "n = length r - (i + 1)" by simp_all
  from Suc.hyps(1) [OF n, of "if crosses qlat qlon (r ! i) (r ! (i - 1)) then \<not> inside else inside"] lt
  have ih: "ring_loop (r @ [v]) qlat qlon (i + 1) i
              (if crosses qlat qlon (r ! i) (r ! (i - 1)) then \<not> inside else inside) =
            (if crosses qlat qlon v (r ! (length r - 1))
             then \<not> ring_loop r qlat qlon (i + 1) i
                     (if crosses qlat qlon (r ! i) (r ! (i - 1)) then \<not> inside else inside)
             else ring_loop r qlat qlon (i + 1) i
                     (if crosses qlat qlon (r ! i) (r ! (i - 1)) then \<not> inside else inside))"
    by simp
  have l: "ring_loop (r @ [v]) qlat qlon i (i - 1) inside =
           ring_loop (r @ [v]) qlat qlon (i + 1) i
              (if crosses qlat qlon (r ! i) (r ! (i - 1)) then \<not> inside else inside)"
  proof -
    from lt have "i - 1 < length r" by arith
    with lt show ?thesis
      by (subst ring_loop.simps) (simp add: nth_append)
  qed
  have r: "ring_loop r qlat qlon i (i - 1) inside =
           ring_loop r qlat qlon (i + 1) i
              (if crosses qlat qlon (r ! i) (r ! (i - 1)) then \<not> inside else inside)"
    using lt by (subst ring_loop.simps) simp
  show ?case
    unfolding l r ih ..
qed

lemma ring_loop_close:
  "ring_loop (close_ring r) qlat qlon 0 (length (close_ring r) - 1) False =
   ring_loop r qlat qlon 0 (length r - 1) False"
proof (cases r)
  case Nil
  then show ?thesis by (simp add: close_ring_def)
next
  case (Cons v vs)
  let ?res = "ring_loop r qlat qlon 1 0 False"
  let ?c = "crosses qlat qlon v (r ! (length r - 1))"
  have c: "close_ring r = r @ [v]" using Cons by (simp add: close_ring_def)
  have r0: "r ! 0 = v" and len: "0 < length r" using Cons by simp_all
  have "ring_loop (r @ [v]) qlat qlon 0 (length r) False = ring_loop (r @ [v]) qlat qlon 1 0 False"
    using r0 len by (subst ring_loop.simps) (simp add: nth_append crosses_same)
  also have "\<dots> = (if ?c then \<not> ?res else ?res)"
    using ring_loop_append [of 1 r v qlat qlon False] len by simp
  finally have closed: "ring_loop (r @ [v]) qlat qlon 0 (length r) False = (if ?c then \<not> ?res else ?res)" .
  have "ring_loop r qlat qlon 0 (length r - 1) False =
        ring_loop r qlat qlon 1 0 (if ?c then \<not> False else False)"
    using r0 len by (subst ring_loop.simps) simp
  also have "\<dots> = (if ?c then \<not> ?res else ?res)"
    using ring_loop_flip [of r qlat qlon 1 0 False] by simp
  finally show ?thesis
    using closed c by simp
qed

lemma first_ring_close_polygon: "first_ring (close_polygon p) = map_option close_ring (first_ring p)"
  by (simp add: first_ring_def close_polygon_def split: list.splits)

lemma rings_loop_close:
  "rings_loop (map (map_option close_ring) rings) qlat qlon = rings_loop rings qlat qlon"
  by (induction rings qlat qlon rule: rings_loop.induct)
    (simp_all add: ring_loop_close [simplified])

text \<open>
  Claim C7, as amended. Appending a copy of the first vertex to the outer ring of a
  polygon (to the outer ring of every polygon of a multi-polygon) does not change the
  result of \<open>pointInPolygon\<close>, for any query point: the added edge joins a vertex
  to itself and the edge back to the first vertex is the one the wraparound already
  tested. The area is not part of the statement: \<open>calculateRingArea\<close> reads the
  consecutive pairs only.
\<close>

theorem pointInPolygon_ring_closure:
  "pointInPolygon qlat qlon (z\<lparr>geometry := close_geometry (geometry z)\<rparr>) =
   pointInPolygon qlat qlon z"
proof (cases "geometry z")
  case (Polygon cs)
  from rings_loop_close [of "[first_ring cs]" qlat qlon] Polygon show ?thesis
    by (simp add: pointInPolygon_def close_geometry_def first_ring_close_polygon)
next
  case (MultiPolygon ps)
  from rings_loop_close [of "map first_ring ps" qlat qlon] MultiPolygon show ?thesis
    by (simp add: pointInPolygon_def close_geometry_def first_ring_close_polygon comp_def)
next
  case (OtherGeometry t)
  then show ?thesis by (simp add: pointInPolygon_def close_geometry_def)
qed

text \<open>
  Claim C7 as stated fails for the area: the triangle \<open>(1,0), (2,1), (2,-1)\<close> has the
  area 7141.5 as an unclosed ring and 4761 once it is closed.
\<close>

theorem area_ring_closure_counterexample:
  "calculatePolygonArea \<lparr>geometry = Polygon [open_triangle]\<rparr> = Inr (Fin (14283 / 2)) \<and>
   calculatePolygonArea \<lparr>geometry = close_geometry (Polygon [open_triangle])\<rparr> = Inr (Fin 4761)"
  by (simp add: calculatePolygonArea_def calculateRingArea_def first_ring_def open_triangle_def
      close_geometry_def close_polygon_def close_ring_def
      area_loop.simps Let_def jsub_def Math_PI_def)

subsection \<open>Degenerate polygons\<close>

lemma ring_loop_short:
  assumes "length r < 2"
  shows "\<not> ring_loop r qlat qlon 0 0 False"
proof (cases r)
  case Nil
  then show ?thesis by (subst ring_loop.simps) simp
next
  case (Cons v vs)
  with assms have r: "r = [v]" by simp
  have "ring_loop [v] qlat qlon (0 + 1) 0 False = False"
    by (subst ring_loop.simps) simp
  then show ?thesis
    unfolding r by (subst ring_loop.simps) (simp add: crosses_same)
qed

lemma calculateRingArea_short:
  assumes "length r < 2"
  shows "calculateRingArea (Some r) = Inr (Fin 0)"
proof -
  from assms have "area_loop r lonToMiles latToMiles 0 (Fin 0) = Fin 0" for lonToMiles latToMiles
    by (subst area_loop.simps) simp
  then show ?thesis
    by (simp add: calculateRingArea_def Let_def)
qed

lemma rings_loop_short:
  "list_all (\<lambda>r. case r of None \<Rightarrow> False | Some c \<Rightarrow> length c < 2) rings \<Longrightarrow>
   rings_loop rings qlat qlon = Inr False"
  by (induction rings qlat qlon rule: rings_loop.induct) (simp_all add: ring_loop_short)

lemma multi_area_loop_short:
  "list_all (\<lambda>p. case p of [] \<Rightarrow> False | r # holes \<Rightarrow> length r < 2) polys \<Longrightarrow>
   multi_area_loop polys (Fin 0) = Inr (Fin 0)"
proof (induction polys)
  case Nil
  show ?case by simp
next
  case (Cons p polys)
  then obtain r holes where p: "p = r # holes" and r: "length r < 2"
    by (cases p) auto
  from Cons calculateRingArea_short [OF r] show ?case
    by (simp add: p first_ring_def)
qed

lemma few_vertices_has_rings: "few_vertices n z \<Longrightarrow> has_rings z"
proof (cases "geometry z")
  case (Polygon cs)
  assume "few_vertices n z"
  with Polygon show ?thesis
    by (cases cs) (simp_all add: few_vertices_def has_rings_def)
next
  case (MultiPolygon ps)
  assume "few_vertices n z"
  with MultiPolygon have "list_all (\<lambda>p. p \<noteq> []) ps"
    by (auto simp: few_vertices_def list_all_iff)
  with MultiPolygon show ?thesis
    by (auto simp: has_rings_def list_all_iff)
next
  case (OtherGeometry t)
  then show ?thesis by (simp add: has_rings_def)
qed

lemma at_most_one_vertex:
  assumes "few_vertices 2 z"
  shows "pointInPolygon qlat qlon z = Inr False \<and> calculatePolygonArea z = Inr (Fin 0)"
proof (cases "geometry z")
  case (Polygon cs)
  with assms obtain r holes where cs: "cs = r # holes" and r: "length r < 2"
    by (cases cs) (auto simp: few_vertices_def)
  from r have "rings_loop [Some r] qlat qlon = Inr False"
    by (intro rings_loop_short) simp
  with calculateRingArea_short [OF r] Polygon cs show ?thesis
    by (simp add: pointInPolygon_def calculatePolygonArea_def first_ring_def)
next
  case (MultiPolygon ps)
  with assms have a: "list_all (\<lambda>p. case p of [] \<Rightarrow> False | r # holes \<Rightarrow> length r < 2) ps"
    by (simp add: few_vertices_def)
  then have "list_all (\<lambda>r. case r of None \<Rightarrow> False | Some c \<Rightarrow> length c < 2) (map first_ring ps)"
    by (induction ps) (auto simp: first_ring_def split: list.splits)
  from rings_loop_short [OF this] multi_area_loop_short [OF a] MultiPolygon show ?thesis
    by (simp add: pointInPolygon_def calculatePolygonArea_def)
next
  case (OtherGeometry t)
  then show ?thesis
    by (simp add: pointInPolygon_def calculatePolygonArea_def)
qed

text \<open>
  Claim C6, as amended. For a degenerate zone, one whose kind is neither \<open>Polygon\<close>
  nor \<open>MultiPolygon\<close> or whose outer rings have fewer than 3 vertices each, neither
  \<open>pointInPolygon\<close> nor the area function throws. When the outer rings have at most
  one vertex each (or the kind is unsupported), \<open>pointInPolygon\<close> returns false for
  every query point and the area is 0. Nothing more is said of a ring of two vertices.
\<close>

theorem degenerate_polygon:
  assumes "few_vertices 3 z"
  shows "(\<exists>b. pointInPolygon qlat qlon z = Inr b) \<and>
         (\<exists>a. calculatePolygonArea z = Inr a) \<and>
         (few_vertices 2 z \<longrightarrow>
            pointInPolygon qlat qlon z = Inr False \<and> calculatePolygonArea z = Inr (Fin 0))"
proof -
  from assms have "has_rings z" by (rule few_vertices_has_rings)
  with pointInPolygon_returns [of z qlat qlon] calculatePolygonArea_returns [of z]
    at_most_one_vertex [of z qlat qlon]
  show ?thesis by blast
qed

text \<open>
  The theorem at a ring of one vertex, at a geometry of the kind \<open>Point\<close>, and at a
  ring of two vertices.
\<close>

theorem degenerate_polygon_witness:
  "few_vertices 3 one_vertex_polygon \<and> few_vertices 2 one_vertex_polygon \<and>
   pointInPolygon (Fin 4) (Fin 3) one_vertex_polygon = Inr False \<and>
   calculatePolygonArea one_vertex_polygon = Inr (Fin 0) \<and>
   few_vertices 3 \<lparr>geometry = OtherGeometry ''Point''\<rparr> \<and>
   pointInPolygon (Fin 4) (Fin 3) \<lparr>geometry = OtherGeometry ''Point''\<rparr> = Inr False \<and>
   calculatePolygonArea \<lparr>geometry = OtherGeometry ''Point''\<rparr> = Inr (Fin 0) \<and>
   few_vertices 3 \<lparr>geometry = Polygon [two_vertex_ring]\<rparr> \<and>
   (\<exists>b. pointInPolygon (Fin 4) (Fin 3) \<lparr>geometry = Polygon [two_vertex_ring]\<rparr> = Inr b)"
proof -
  have d1: "few_vertices 3 one_vertex_polygon" "few_vertices 2 one_vertex_polygon"
    by (simp_all add: few_vertices_def one_vertex_polygon_def)
  have d2: "few_vertices 3 \<lparr>geometry = OtherGeometry ''Point''\<rparr>"
      "few_vertices 2 \<lparr>geometry = OtherGeometry ''Point''\<rparr>"
    by (simp_all add: few_vertices_def)
  have d3: "few_vertices 3 \<lparr>geometry = Polygon [two_vertex_ring]\<rparr>"
    by (simp add: few_vertices_def two_vertex_ring_def)
  from degenerate_polygon [OF d1(1), of "Fin 4" "Fin 3"]
    degenerate_polygon [OF d2(1), of "Fin 4" "Fin 3"]
    degenerate_polygon [OF d3, of "Fin 4" "Fin 3"] d1 d2 d3
  show ?thesis by blast
qed

text \<open>
  The containment test on the unit square: the centre is inside, \<open>(2, 2)\<close> is
  outside, and closing the ring keeps the centre inside.
\<close>

lemma unit_square_contains:
  "pointInPolygon (Fin (1 / 2)) (Fin (1 / 2)) unit_square = Inr True \<and>
   pointInPolygon (Fin 2) (Fin 2) unit_square = Inr False \<and>
   pointInPolygon (Fin (1 / 2)) (Fin (1 / 2))
     (unit_square\<lparr>geometry := close_geometry (geometry unit_square)\<rparr>) = Inr True"
  by (simp add: pointInPolygon_def unit_square_def first_ring_def ring_loop.simps crosses_def
      jgt_def jsub_def close_geometry_def close_polygon_def close_ring_def)

text \<open>
  Claim C6 as stated fails for the area of a ring of two vertices: the loop of
  \<open>calculateRingArea\<close> runs once, and the ring \<open>(1,-1), (1,1)\<close> gets the area 4761.
\<close>

theorem two_vertex_area_counterexample:
  "length two_vertex_ring < 3 \<and>
   calculatePolygonArea \<lparr>geometry = Polygon [two_vertex_ring]\<rparr> = Inr (Fin 4761)"
  by (simp add: calculatePolygonArea_def calculateRingArea_def first_ring_def two_vertex_ring_def
      area_loop.simps Let_def jsub_def Math_PI_def)

subsection \<open>The distance of finite coordinates\<close>

lemma jsub_Fin: "jsub (Fin x) (Fin y) = Fin (x - y)"
  by (simp add: jsub_def)

lemma haversine_Fin:
  "haversineDistance (Fin a) (Fin b) (Fin c) (Fin d) =
     (if haversine_a a b c d < 0 \<or> 1 - haversine_a a b c d < 0 then NaN
      else Fin (20902231 * (2 * atan2_real (sqrt (haversine_a a b c d))
                                          (sqrt (1 - haversine_a a b c d)))))"
  by (simp add: haversineDistance_def Let_def jsub_Fin Math_PI_def haversine_a_def)

lemma trig_bounds:
  fixes p1 p2 dl :: real
  shows "0 \<le> sin ((p2 - p1) / 2) * sin ((p2 - p1) / 2) + cos p1 * cos p2 * sin dl * sin dl \<and>
         sin ((p2 - p1) / 2) * sin ((p2 - p1) / 2) + cos p1 * cos p2 * sin dl * sin dl \<le> 1"
proof -
  define s where "s = (sin ((p2 - p1) / 2))\<^sup>2"
  define t where "t = (sin dl)\<^sup>2"
  define k where "k = cos p1 * cos p2"
  have A: "sin ((p2 - p1) / 2) * sin ((p2 - p1) / 2) + cos p1 * cos p2 * sin dl * sin dl = s + k * t"
    by (simp add: s_def t_def k_def power2_eq_square algebra_simps)
  have s: "0 \<le> s" "s \<le> 1" by (simp_all add: s_def abs_square_le_1)
  have t: "0 \<le> t" "t \<le> 1" by (simp_all add: t_def abs_square_le_1)
  have "2 * ((p2 - p1) / 2) = p2 - p1" by (simp add: field_simps)
  from cos_double_sin [of "(p2 - p1) / 2", unfolded this]
  have c: "cos (p2 - p1) = 1 - 2 * s" unfolding s_def .
  have "2 * k = cos (p2 - p1) + cos (p2 + p1)"
    by (simp add: k_def cos_diff cos_add)
  with c have k2: "2 * k = 1 - 2 * s + cos (p2 + p1)" by simp
  have "- 1 \<le> cos (p2 + p1)" "cos (p2 + p1) \<le> 1" by simp_all
  with k2 have k: "- s \<le> k" "k \<le> 1 - s" by linarith+
  have "0 \<le> s + k * t \<and> s + k * t \<le> 1"
  proof (cases "0 \<le> k")
    case True
    then have "k * t \<le> k * 1" using t by (intro mult_left_mono) simp_all
    moreover have "0 \<le> k * t" using True t by simp
    ultimately show ?thesis using s k by linarith
  next
    case False
    then have "k * t \<le> 0" using t by (simp add: mult_le_0_iff)
    moreover have "k * 1 \<le> k * t" using False t by (intro mult_left_mono_neg) simp_all
    ultimately show ?thesis using s k by linarith
  qed
  with A show ?thesis by simp
qed

lemma haversine_a_bounds: "0 \<le> haversine_a a b c d \<and> haversine_a a b c d \<le> 1"
proof -
  have e: "(c - a) * pi / 180 / 2 = (c * pi / 180 - a * pi / 180) / 2"
    by (simp add: algebra_simps diff_divide_distrib)
  show ?thesis
    unfolding haversine_a_def e by (rule trig_bounds)
qed

lemma atan2_real_nonneg: "0 \<le> y \<Longrightarrow> 0 \<le> x \<Longrightarrow> 0 \<le> atan2_real y x"
  by (simp add: atan2_real_def zero_le_arctan_iff)

lemma haversine_finite:
  "\<exists>r. haversineDistance (Fin a) (Fin b) (Fin c) (Fin d) = Fin r \<and> 0 \<le> r"
proof -
  note b = haversine_a_bounds [of a b c d]
  have "0 \<le> atan2_real (sqrt (haversine_a a b c d)) (sqrt (1 - haversine_a a b c d))"
    using b by (intro atan2_real_nonneg) simp_all
  with b show ?thesis
    by (simp add: haversine_Fin)
qed

subsection \<open>The ring search\<close>

lemma jlt_trans: "jlt a b \<Longrightarrow> jlt b c \<Longrightarrow> jlt a c"
  by (cases a; cases b; cases c) simp_all

lemma jlt_irrefl: "\<not> jlt a a"
  by (cases a) simp_all

lemma jlt_total: "a \<noteq> NaN \<Longrightarrow> b \<noteq> NaN \<Longrightarrow> a = b \<or> jlt a b \<or> jlt b a"
  by (cases a; cases b) auto

lemma jlt_not_NaN: "jlt a b \<Longrightarrow> a \<noteq> NaN \<and> b \<noteq> NaN"
  by (cases a; cases b) simp_all

text \<open>What the scan returns, for any starting pair.\<close>

lemma nearest_scan_spec:
  "(point (nearest_scan qlat qlon ps b bp) = bp \<and> distance (nearest_scan qlat qlon ps b bp) = b \<or>
    (\<exists>p\<in>set ps. point (nearest_scan qlat qlon ps b bp) = Some p \<and>
       distance (nearest_scan qlat qlon ps b bp) = haversineDistance qlat qlon (lat p) (lon p))) \<and>
   (distance (nearest_scan qlat qlon ps b bp) = b \<or> jlt (distance (nearest_scan qlat qlon ps b bp)) b) \<and>
   (\<forall>p\<in>set ps. \<not> jlt (haversineDistance qlat qlon (lat p) (lon p))
                      (distance (nearest_scan qlat qlon ps b bp)))"
proof (induction ps arbitrary: b bp)
  case Nil
  show ?case by simp
next
  case (Cons p ps)
  let ?h = "haversineDistance qlat qlon (lat p) (lon p)"
  show ?case
  proof (cases "jlt ?h b")
    case True
    then have e: "nearest_scan qlat qlon (p # ps) b bp = nearest_scan qlat qlon ps ?h (Some p)"
      by (simp add: Let_def)
    from Cons.IH [of ?h "Some p"] True show ?thesis
      unfolding e by (auto dest: jlt_trans simp: jlt_irrefl)
  next
    case False
    then have e: "nearest_scan qlat qlon (p # ps) b bp = nearest_scan qlat qlon ps b bp"
      by (simp add: Let_def)
    from Cons.IH [of b bp] False show ?thesis
      unfolding e by (auto dest: jlt_trans)
  qed
qed

text \<open>The ring search skips the empty radii and stops at the first one with candidates.\<close>

lemma findNearest_from_skip:
  assumes "radius \<le> r"
    and "\<forall>r'. radius \<le> r' \<and> r' < r \<longrightarrow> getNearbyPoints g qlat qlon (int r') = []"
  shows "r \<le> 21 \<Longrightarrow> findNearest_from g qlat qlon radius = findNearest_from g qlat qlon r"
  using assms
proof (induction "r - radius" arbitrary: radius)
  case 0
  then show ?case by simp
next
  case (Suc n)
  then have lt: "radius < r" and n: "n = r - (radius + 1)" by simp_all
  with Suc.prems have e: "getNearbyPoints g qlat qlon (int radius) = []" and le: "radius \<le> 20"
    by auto
  have "findNearest_from g qlat qlon radius = findNearest_from g qlat qlon (radius + 1)"
    using e le by (subst findNearest_from.simps) simp
  also have "\<dots> = findNearest_from g qlat qlon r"
    using Suc.prems lt by (intro Suc.hyps(1) [OF n]) auto
  finally show ?case .
qed

lemma findNearest_first_radius:
  assumes "1 \<le> r" "r \<le> 20"
    and "getNearbyPoints g qlat qlon (int r) \<noteq> []"
    and "\<forall>r'. 1 \<le> r' \<and> r' < r \<longrightarrow> getNearbyPoints g qlat qlon (int r') = []"
  shows "findNearest g qlat qlon =
           nearest_scan qlat qlon (getNearbyPoints g qlat qlon (int r)) PosInf None"
proof -
  have "findNearest g qlat qlon = findNearest_from g qlat qlon r"
    unfolding findNearest_def using assms by (intro findNearest_from_skip) auto
  also have "\<dots> = nearest_scan qlat qlon (getNearbyPoints g qlat qlon (int r)) PosInf None"
    using assms by (subst findNearest_from.simps) simp
  finally show ?thesis .
qed

lemma findNearest_no_candidates:
  assumes "\<forall>r'. 1 \<le> r' \<and> r' < 21 \<longrightarrow> getNearbyPoints g qlat qlon (int r') = []"
  shows "findNearest g qlat qlon = \<lparr>point = None, distance = PosInf\<rparr>"
proof -
  have "findNearest g qlat qlon = findNearest_from g qlat qlon 21"
    unfolding findNearest_def using assms by (intro findNearest_from_skip) auto
  also have "\<dots> = \<lparr>point = None, distance = PosInf\<rparr>"
    by (subst findNearest_from.simps) simp
  finally show ?thesis .
qed

text \<open>
  The candidates of a radius: the points of the buckets of the \<open>(2r+1) x (2r+1)\<close>
  cells around the cell of the query, column by column.
\<close>

lemma in_bucket: "p \<in> set (bucket g c) \<longleftrightarrow> (\<exists>ps. grid g c = Some ps \<and> p \<in> set ps)"
  by (cases "grid g c") (simp_all add: bucket_def)

lemma getNearbyPoints_buckets:
  "p \<in> set (getNearbyPoints g qlat qlon r) \<longleftrightarrow>
     (\<exists>dx\<in>{- r..r}. \<exists>dy\<in>{- r..r}.
        p \<in> set (bucket g (jadd (fst (getCell g qlat qlon)) (Fin (of_int dx)),
                            jadd (snd (getCell g qlat qlon)) (Fin (of_int dy)))))"
  by (auto simp: getNearbyPoints_def getCell_def Let_def)

lemma getNearbyPoints_block:
  "p \<in> set (getNearbyPoints g qlat qlon r) \<longleftrightarrow>
     (\<exists>dx\<in>{- r..r}. \<exists>dy\<in>{- r..r}. \<exists>ps.
        grid g (jadd (fst (getCell g qlat qlon)) (Fin (of_int dx)),
                jadd (snd (getCell g qlat qlon)) (Fin (of_int dy))) = Some ps \<and> p \<in> set ps)"
  unfolding getNearbyPoints_buckets in_bucket ..

lemma concat_product:
  "concat (map (\<lambda>(x, y). f x y) (List.product xs ys)) =
   concat (map (\<lambda>x. concat (map (\<lambda>y. f x y) ys)) xs)"
  by (induction xs) (simp_all add: comp_def)

lemma getNearbyPoints_cells:
  "getNearbyPoints g qlat qlon r =
     concat (map (\<lambda>(dx, dy). bucket g (jadd (fst (getCell g qlat qlon)) (Fin (of_int dx)),
                                         jadd (snd (getCell g qlat qlon)) (Fin (of_int dy))))
                 (List.product [- r..r] [- r..r]))"
  unfolding concat_product by (simp add: getNearbyPoints_def getCell_def Let_def)

lemma block_size: "0 \<le> r \<Longrightarrow> int (length (List.product [- r..r] [- r..r])) = (2 * r + 1)\<^sup>2"
  by (simp add: power2_eq_square)

text \<open>
  The scan over a list of candidates returns a candidate than which none is nearer, as
  soon as one candidate has a distance that is a number; the comparison \<open>dist < bestDist\<close>
  is false for every NaN, so candidates whose distances are all NaN leave the
  starting pair.
\<close>

lemma nearest_scan_cases:
  fixes cs :: "'d point list"
  shows "(if \<exists>p\<in>set cs. haversineDistance qlat qlon (lat p) (lon p) \<noteq> NaN
          then \<exists>p\<in>set cs.
                 nearest_scan qlat qlon cs PosInf None =
                   \<lparr>point = Some p, distance = haversineDistance qlat qlon (lat p) (lon p)\<rparr> \<and>
                 haversineDistance qlat qlon (lat p) (lon p) \<noteq> NaN \<and>
                 (\<forall>p'\<in>set cs. \<not> jlt (haversineDistance qlat qlon (lat p') (lon p'))
                                     (haversineDistance qlat qlon (lat p) (lon p)))
          else nearest_scan qlat qlon cs PosInf None = \<lparr>point = None, distance = PosInf\<rparr>)"
proof -
  let ?h = "\<lambda>p :: 'd point. haversineDistance qlat qlon (lat p) (lon p)"
  let ?res = "nearest_scan qlat qlon cs PosInf None"
  note spec = nearest_scan_spec [of qlat qlon cs PosInf None]
  from spec have nn: "distance ?res \<noteq> NaN" by (auto dest: jlt_not_NaN)
  show ?thesis
  proof (cases "\<exists>p\<in>set cs. ?h p \<noteq> NaN")
    case True
    then obtain p0 where p0: "p0 \<in> set cs" "?h p0 \<noteq> NaN" by blast
    with haversine_cases [of qlat qlon "lat p0" "lon p0"] obtain x where x: "?h p0 = Fin x" by auto
    from spec p0(1) have "\<not> jlt (?h p0) (distance ?res)" by blast
    with x have "distance ?res \<noteq> PosInf" by auto
    with spec obtain p where p: "p \<in> set cs" "point ?res = Some p" "distance ?res = ?h p"
      by blast
    then have "?res = \<lparr>point = Some p, distance = ?h p\<rparr>" by (cases ?res) simp
    moreover from nn p(3) have "?h p \<noteq> NaN" by simp
    moreover from spec p(3) have "\<forall>p'\<in>set cs. \<not> jlt (?h p') (?h p)" by simp
    ultimately show ?thesis using True p(1) by auto
  next
    case False
    with spec nn have "point ?res = None \<and> distance ?res = PosInf" by auto
    then have "?res = \<lparr>point = None, distance = PosInf\<rparr>" by (cases ?res) simp
    with False show ?thesis by auto
  qed
qed

text \<open>
  Claim C4, as amended. The candidates of a radius \<open>r\<close> are the points of the buckets
  of the \<open>(2r+1) x (2r+1)\<close> cells around the query's cell. \<open>findNearest\<close> searches
  the radii 1 to 20. When no radius has a candidate (in particular on an empty index)
  the result is \<open>{point: null, distance: Infinity}\<close>. Otherwise, at the smallest
  radius with a candidate: if some candidate's haversine distance is a number, the
  result is a collected candidate together with its distance, and no collected
  candidate is nearer; if every candidate's distance is NaN, the result is again
  \<open>{point: null, distance: Infinity}\<close>. The function is total: it raises no error.
\<close>

theorem findNearest_ring_search:
  "(\<forall>r p. p \<in> set (getNearbyPoints g qlat qlon r) \<longleftrightarrow>
      (\<exists>dx\<in>{- r..r}. \<exists>dy\<in>{- r..r}. \<exists>ps.
         grid g (jadd (fst (getCell g qlat qlon)) (Fin (of_int dx)),
                 jadd (snd (getCell g qlat qlon)) (Fin (of_int dy))) = Some ps \<and> p \<in> set ps)) \<and>
   ((\<forall>r\<in>{1..20}. getNearbyPoints g qlat qlon (int r) = []) \<longrightarrow>
      findNearest g qlat qlon = \<lparr>point = None, distance = PosInf\<rparr>) \<and>
   (\<forall>r\<in>{1..20}.
      getNearbyPoints g qlat qlon (int r) \<noteq> [] \<and>
      (\<forall>r'\<in>{1..<r}. getNearbyPoints g qlat qlon (int r') = []) \<longrightarrow>
      (if \<exists>p\<in>set (getNearbyPoints g qlat qlon (int r)).
            haversineDistance qlat qlon (lat p) (lon p) \<noteq> NaN
       then \<exists>p\<in>set (getNearbyPoints g qlat qlon (int r)).
              findNearest g qlat qlon =
                \<lparr>point = Some p, distance = haversineDistance qlat qlon (lat p) (lon p)\<rparr> \<and>
              haversineDistance qlat qlon (lat p) (lon p) \<noteq> NaN \<and>
              (\<forall>p'\<in>set (getNearbyPoints g qlat qlon (int r)).
                 \<not> jlt (haversineDistance qlat qlon (lat p') (lon p'))
                        (haversineDistance qlat qlon (lat p) (lon p)))
       else findNearest g qlat qlon = \<lparr>point = None, distance = PosInf\<rparr>))"
proof (intro conjI allI impI ballI)
  fix r :: int and p :: "'a point"
  show "p \<in> set (getNearbyPoints g qlat qlon r) \<longleftrightarrow>
      (\<exists>dx\<in>{- r..r}. \<exists>dy\<in>{- r..r}. \<exists>ps.
         grid g (jadd (fst (getCell g qlat qlon)) (Fin (of_int dx)),
                 jadd (snd (getCell g qlat qlon)) (Fin (of_int dy))) = Some ps \<and> p \<in> set ps)"
    by (rule getNearbyPoints_block)
next
  assume "\<forall>r\<in>{1..20}. getNearbyPoints g qlat qlon (int r) = []"
  then show "findNearest g qlat qlon = \<lparr>point = None, distance = PosInf\<rparr>"
    by (intro findNearest_no_candidates) auto
next
  fix r :: nat
  assume r: "r \<in> {1..20}"
    and h: "getNearbyPoints g qlat qlon (int r) \<noteq> [] \<and>
      (\<forall>r'\<in>{1..<r}. getNearbyPoints g qlat qlon (int r') = [])"
  from r h have "findNearest g qlat qlon =
           nearest_scan qlat qlon (getNearbyPoints g qlat qlon (int r)) PosInf None"
    by (intro findNearest_first_radius) auto
  with nearest_scan_cases [of "getNearbyPoints g qlat qlon (int r)" qlat qlon]
  show "if \<exists>p\<in>set (getNearbyPoints g qlat qlon (int r)).
            haversineDistance qlat qlon (lat p) (lon p) \<noteq> NaN
       then \<exists>p\<in>set (getNearbyPoints g qlat qlon (int r)).
              findNearest g qlat qlon =
                \<lparr>point = Some p, distance = haversineDistance qlat qlon (lat p) (lon p)\<rparr> \<and>
              haversineDistance qlat qlon (lat p) (lon p) \<noteq> NaN \<and>
              (\<forall>p'\<in>set (getNearbyPoints g qlat qlon (int r)).
                 \<not> jlt (haversineDistance qlat qlon (lat p') (lon p'))
                        (haversineDistance qlat qlon (lat p) (lon p)))
       else findNearest g qlat qlon = \<lparr>point = None, distance = PosInf\<rparr>"
    by simp
qed

lemma empty_nearby: "getNearbyPoints (new_SpatialGrid cs) qlat qlon r = []"
  by (simp add: getNearbyPoints_def bucket_def new_SpatialGrid_def)

text \<open>
  With finite coordinates every distance is a number (in exact arithmetic), so the
  first case applies.
\<close>

lemma finite_coordinates_numeric:
  "is_finite qlat \<Longrightarrow> is_finite qlon \<Longrightarrow> is_finite plat \<Longrightarrow> is_finite plon \<Longrightarrow>
   haversineDistance qlat qlon plat plon \<noteq> NaN"
proof -
  assume "is_finite qlat" "is_finite qlon" "is_finite plat" "is_finite plon"
  then obtain a b c d where "qlat = Fin a" "qlon = Fin b" "plat = Fin c" "plon = Fin d"
    by (cases qlat; cases qlon; cases plat; cases plon) auto
  with haversine_finite [of a b c d] show ?thesis by auto
qed

text \<open>On a meridian the distance is the arc: the radius times the difference of latitude.\<close>

lemma haversine_meridian:
  assumes "\<bar>c - a\<bar> < 180"
  shows "haversineDistance (Fin a) (Fin b) (Fin c) (Fin b) =
           Fin (20902231 * (2 * (\<bar>c - a\<bar> * pi / 360)))"
proof -
  define h where "h = (c - a) * pi / 180 / 2"
  have ah: "\<bar>h\<bar> = \<bar>c - a\<bar> * pi / 360"
    by (simp add: h_def abs_mult)
  have "\<bar>c - a\<bar> * pi < 180 * pi"
    using assms by (intro mult_strict_right_mono) simp_all
  with ah have hb: "\<bar>h\<bar> < pi / 2" by linarith
  then have c: "0 < cos h"
    by (intro cos_gt_zero_pi) (simp_all add: abs_less_iff)
  have A: "haversine_a a b c b = (sin h)\<^sup>2"
    by (simp add: haversine_a_def h_def power2_eq_square)
  have s1: "sqrt (haversine_a a b c b) = \<bar>sin h\<bar>"
    by (simp add: A)
  have "1 - haversine_a a b c b = (cos h)\<^sup>2"
    by (simp add: A cos_squared_eq)
  with c have s2: "sqrt (1 - haversine_a a b c b) = cos h"
    by simp
  have t: "\<bar>sin h\<bar> / cos h = tan \<bar>h\<bar>"
  proof (cases "0 \<le> h")
    case True
    with hb have "0 \<le> sin h" by (intro sin_ge_zero) simp_all
    with True show ?thesis by (simp add: tan_def)
  next
    case False
    with hb have "sin h < 0" by (intro sin_less_zero) simp_all
    with False show ?thesis by (simp add: tan_def)
  qed
  have "atan2_real \<bar>sin h\<bar> (cos h) = arctan (tan \<bar>h\<bar>)"
    using c by (simp add: atan2_real_def t)
  also have "\<dots> = \<bar>h\<bar>"
    using hb by (intro arctan_tan) simp_all
  finally have "atan2_real \<bar>sin h\<bar> (cos h) = \<bar>c - a\<bar> * pi / 360"
    by (simp add: ah)
  moreover from haversine_a_bounds [of a b c b]
  have "\<not> (haversine_a a b c b < 0 \<or> 1 - haversine_a a b c b < 0)" by simp
  ultimately show ?thesis
    by (simp only: haversine_Fin s1 s2 if_False)
qed

lemma grid_nan_nearby:
  "getNearbyPoints grid_nan NaN NaN 1 = replicate 9 nan_point"
  by (simp add: grid_nan_def nan_point_def getNearbyPoints_def getCell_def insert_point_def
      bucket_def clear_def new_SpatialGrid_def Let_def upto.simps numeral_eq_Suc)

lemma haversine_NaN: "haversineDistance NaN NaN NaN NaN = NaN"
  by (simp add: haversineDistance_def jsub_def Let_def)

text \<open>
  Claim C4 as stated fails when no candidate has a distance that is a number: the
  index holds a point whose coordinates are NaN, the query's coordinates are NaN, the
  block of radius 1 holds the point (its key is read nine times), and the result is
  \<open>{point: null, distance: Infinity}\<close>.
\<close>

theorem nan_candidates_counterexample:
  "nan_point \<in> set (getNearbyPoints grid_nan NaN NaN 1) \<and>
   findNearest grid_nan NaN NaN = \<lparr>point = None, distance = PosInf\<rparr>"
proof -
  have "findNearest grid_nan NaN NaN =
        nearest_scan NaN NaN (getNearbyPoints grid_nan NaN NaN (int 1)) PosInf None"
    by (rule findNearest_first_radius) (simp_all add: grid_nan_nearby)
  then show ?thesis
    by (simp add: grid_nan_nearby haversine_NaN numeral_eq_Suc nan_point_def)
qed

lemma grid_CB_nearby_1:
  "getNearbyPoints grid_CB (Fin (49 / 10000)) (Fin (1 / 500)) 1 = []"
  by (simp add: grid_CB_def point_C_def point_B_def getNearbyPoints_def getCell_def
      insert_point_def bucket_def clear_def new_SpatialGrid_def Let_def upto.simps)

lemma grid_CB_nearby_2:
  "getNearbyPoints grid_CB (Fin (49 / 10000)) (Fin (1 / 500)) 2 = [point_C, point_B]"
  by (simp add: grid_CB_def point_C_def point_B_def getNearbyPoints_def getCell_def
      insert_point_def bucket_def clear_def new_SpatialGrid_def Let_def upto.simps)

lemma grid_CB_distances:
  "haversineDistance (Fin (49 / 10000)) (Fin (1 / 500)) (lat point_C) (lon point_C) =
     Fin (20902231 * (2 * (1 / 100 * pi / 360))) \<and>
   haversineDistance (Fin (49 / 10000)) (Fin (1 / 500)) (lat point_B) (lon point_B) =
     Fin (20902231 * (2 * (52 / 10000 * pi / 360)))"
  using haversine_meridian [of "- (51 / 10000)" "49 / 10000" "1 / 500"]
    haversine_meridian [of "101 / 10000" "49 / 10000" "1 / 500"]
  by (simp add: point_C_def point_B_def)

text \<open>
  The theorem on an empty index, and on the index of \<open>point_C\<close> and \<open>point_B\<close>: the
  first ring of the query is empty, the second holds both points, and the result is
  \<open>point_B\<close>, the nearer one and the later one in the scan.
\<close>

theorem findNearest_ring_search_witness:
  "findNearest (new_SpatialGrid (Fin (1 / 200)) :: unit SpatialGrid) (Fin 0) (Fin 0) =
     \<lparr>point = None, distance = PosInf\<rparr> \<and>
   getNearbyPoints grid_CB (Fin (49 / 10000)) (Fin (1 / 500)) 1 = [] \<and>
   getNearbyPoints grid_CB (Fin (49 / 10000)) (Fin (1 / 500)) 2 = [point_C, point_B] \<and>
   findNearest grid_CB (Fin (49 / 10000)) (Fin (1 / 500)) =
     \<lparr>point = Some point_B, distance = Fin (20902231 * (2 * (52 / 10000 * pi / 360)))\<rparr>"
proof -
  let ?qlat = "Fin (49 / 10000)" and ?qlon = "Fin (1 / 500)"
  have "findNearest (new_SpatialGrid (Fin (1 / 200)) :: unit SpatialGrid) (Fin 0) (Fin 0) =
     \<lparr>point = None, distance = PosInf\<rparr>"
    using findNearest_ring_search
      [of "new_SpatialGrid (Fin (1 / 200)) :: unit SpatialGrid" "Fin 0" "Fin 0",
       THEN conjunct2, THEN conjunct1]
    by (simp add: empty_nearby)
  moreover
  have e: "\<forall>r'\<in>{1..<2::nat}. getNearbyPoints grid_CB ?qlat ?qlon (int r') = []"
  proof
    fix r' :: nat assume "r' \<in> {1..<2}"
    then have "r' = 1" by auto
    then show "getNearbyPoints grid_CB ?qlat ?qlon (int r') = []"
      by (simp add: grid_CB_nearby_1)
  qed
  have n2: "getNearbyPoints grid_CB ?qlat ?qlon (int 2) = [point_C, point_B]"
    by (simp add: grid_CB_nearby_2)
  have "2 \<in> {1..20::nat}" by simp
  from findNearest_ring_search [of grid_CB ?qlat ?qlon, THEN conjunct2, THEN conjunct2,
      THEN bspec, OF this] e
  have "\<exists>p\<in>set [point_C, point_B].
          findNearest grid_CB ?qlat ?qlon =
            \<lparr>point = Some p, distance = haversineDistance ?qlat ?qlon (lat p) (lon p)\<rparr> \<and>
          (\<forall>p'\<in>set [point_C, point_B].
              \<not> jlt (haversineDistance ?qlat ?qlon (lat p') (lon p'))
                     (haversineDistance ?qlat ?qlon (lat p) (lon p)))"
    unfolding n2 by (auto simp: grid_CB_distances)
  then have "findNearest grid_CB ?qlat ?qlon =
     \<lparr>point = Some point_B, distance = Fin (20902231 * (2 * (52 / 10000 * pi / 360)))\<rparr>"
    by (auto simp: grid_CB_distances)
  ultimately show ?thesis
    by (simp add: grid_CB_nearby_1 grid_CB_nearby_2)
qed

subsection \<open>Indexes built by insertion\<close>

text \<open>The buckets of an index after a sequence of insertions.\<close>

lemma cellSize_insert_point: "cellSize (insert_point g a b d) = cellSize g"
  by (simp add: insert_point_def Let_def)

lemma getCell_insert_point: "getCell (insert_point g a b d) = getCell g"
  by (simp add: getCell_def cellSize_insert_point fun_eq_iff)

lemma bucket_insert_point:
  "bucket (insert_point g a b d) c =
     (if c = getCell g a b then bucket g c @ [\<lparr>lat = a, lon = b, data = d\<rparr>] else bucket g c)"
  by (simp add: insert_point_def bucket_def Let_def)

lemma cellSize_insert_all: "cellSize (insert_all g ps) = cellSize g"
  by (induction ps arbitrary: g) (simp_all add: cellSize_insert_point)

lemma bucket_insert_all:
  "bucket (insert_all g ps) c = bucket g c @ filter (\<lambda>p. getCell g (lat p) (lon p) = c) ps"
  by (induction ps arbitrary: g) (auto simp: bucket_insert_point getCell_insert_point)

lemma allPoints_insert_all: "allPoints (insert_all g ps) = allPoints g @ ps"
  by (induction ps arbitrary: g) (simp_all add: insert_point_def Let_def)

lemma bucket_clear: "bucket (clear g) c = []"
  by (simp add: bucket_def clear_def)

lemma getCell_clear: "getCell (clear g) = getCell g"
  by (simp add: getCell_def clear_def fun_eq_iff)

lemma bucket_built:
  "bucket (insert_all (clear g) ps) c = filter (\<lambda>p. getCell g (lat p) (lon p) = c) ps"
  by (simp add: bucket_insert_all bucket_clear getCell_clear)

lemma set_concat_map_mono:
  "(\<And>x. set (f x) \<subseteq> S) \<Longrightarrow> set (concat (map f xs)) \<subseteq> S"
  by (induction xs) auto

lemma nearby_built_subset:
  "set (getNearbyPoints (insert_all (clear g) ps) qlat qlon r) \<subseteq> set ps"
  unfolding getNearbyPoints_def Let_def
  by (intro set_concat_map_mono) (simp add: bucket_built)

text \<open>The candidates of a built index: the inserted points whose cell lies in the block.\<close>

lemma nearby_built_block:
  "p \<in> set (getNearbyPoints (insert_all (clear g) ps) qlat qlon r) \<longleftrightarrow>
     p \<in> set ps \<and>
     (\<exists>dx\<in>{- r..r}. \<exists>dy\<in>{- r..r}.
        getCell g (lat p) (lon p) =
          (jadd (fst (getCell g qlat qlon)) (Fin (of_int dx)),
           jadd (snd (getCell g qlat qlon)) (Fin (of_int dy))))"
proof -
  have c: "cellSize (insert_all (clear g) ps) = cellSize g"
    by (simp add: cellSize_insert_all clear_def)
  show ?thesis
    by (auto simp: getNearbyPoints_def Let_def c bucket_built getCell_def)
qed

lemma mset_concat_map_cong:
  "(\<And>x. mset (f x) = mset (f' x)) \<Longrightarrow> mset (concat (map f xs)) = mset (concat (map f' xs))"
  by (induction xs) simp_all

lemma nearby_built_mset:
  assumes "mset ps = mset ps'" and "cellSize g = cellSize g'"
  shows "mset (getNearbyPoints (insert_all (clear g) ps) qlat qlon r) =
         mset (getNearbyPoints (insert_all (clear g') ps') qlat qlon r)"
proof -
  have c: "cellSize (insert_all (clear g) ps) = cellSize (insert_all (clear g') ps')"
    using assms(2) by (simp add: cellSize_insert_all clear_def)
  have k: "getCell g = getCell g'"
    using assms(2) by (simp add: getCell_def fun_eq_iff)
  have b: "mset (bucket (insert_all (clear g) ps) c) = mset (bucket (insert_all (clear g') ps') c)" for c
    using assms(1) by (simp add: bucket_built k)
  show ?thesis
    unfolding getNearbyPoints_def Let_def c
    by (intro mset_concat_map_cong) (rule b)
qed

text \<open>The scan depends on the set of candidates only, up to the choice among equidistant points.\<close>

lemma jlt_PosInf: "\<not> jlt PosInf x"
  by (cases x) simp_all

lemma nearest_scan_set_eq:
  fixes qlat qlon :: jsnum and cs cs' :: "'d point list"
  assumes "set cs = set cs'"
  defines "r1 \<equiv> nearest_scan qlat qlon cs PosInf None"
    and "r2 \<equiv> nearest_scan qlat qlon cs' PosInf None"
  shows "distance r1 = distance r2 \<and>
         (point r1 = point r2 \<or>
          (\<exists>p p'. point r1 = Some p \<and> point r2 = Some p' \<and> p \<noteq> p' \<and>
                   p \<in> set cs \<and> p' \<in> set cs \<and>
                   haversineDistance qlat qlon (lat p) (lon p) =
                   haversineDistance qlat qlon (lat p') (lon p')))"
proof -
  let ?h = "\<lambda>p. haversineDistance qlat qlon (lat p) (lon p)"
  note s1 = nearest_scan_spec [of qlat qlon cs PosInf None, folded r1_def]
  note s2 = nearest_scan_spec [of qlat qlon cs' PosInf None, folded r2_def]
  from s1 have n1: "distance r1 \<noteq> NaN" by (auto dest: jlt_not_NaN)
  from s2 have n2: "distance r2 \<noteq> NaN" by (auto dest: jlt_not_NaN)
  have "\<not> jlt (distance r1) (distance r2)"
  proof
    assume l: "jlt (distance r1) (distance r2)"
    from s1 l have "\<exists>p\<in>set cs. distance r1 = ?h p" by (auto simp: jlt_PosInf)
    with s2 l assms(1) show False by auto
  qed
  moreover have "\<not> jlt (distance r2) (distance r1)"
  proof
    assume l: "jlt (distance r2) (distance r1)"
    from s2 l have "\<exists>p\<in>set cs'. distance r2 = ?h p" by (auto simp: jlt_PosInf)
    with s1 l assms(1) show False by auto
  qed
  ultimately have d: "distance r1 = distance r2"
    using jlt_total [OF n1 n2] by blast
  have inf: "?h p \<noteq> PosInf \<and> PosInf \<noteq> ?h p" for p :: "'d point"
    using haversine_cases [of qlat qlon "lat p" "lon p"] by auto
  from s1 [THEN conjunct1] consider "point r1 = None" "distance r1 = PosInf"
    | p where "p \<in> set cs" "point r1 = Some p" "distance r1 = ?h p" by auto
  then have "point r1 = point r2 \<or>
          (\<exists>p p'. point r1 = Some p \<and> point r2 = Some p' \<and> p \<noteq> p' \<and>
                   p \<in> set cs \<and> p' \<in> set cs \<and> ?h p = ?h p')"
  proof cases
    case 1
    with s2 d inf show ?thesis by auto
  next
    case (2 p)
    with s2 d inf [of p] obtain p' where "p' \<in> set cs'" "point r2 = Some p'" "distance r2 = ?h p'"
      by auto
    with 2 d assms(1) show ?thesis by (cases "p = p'") auto
  qed
  with d show ?thesis by simp
qed

text \<open>The two index builders of the worker are such sequences of insertions.\<close>

lemma hydrant_insert_loop_insert_all:
  "hydrant_insert_loop g hs =
     insert_all g (map (\<lambda>h. \<lparr>lat = lat h, lon = lon h, data = None\<rparr>) hs)"
  by (induction hs arbitrary: g) simp_all

lemma station_insert_loop_insert_all:
  "station_insert_loop g ss =
     insert_all g (map (\<lambda>s. \<lparr>lat = lat s, lon = lon s, data = Some s\<rparr>) ss)"
  by (induction ss arbitrary: g) simp_all

lemma built_indexes:
  "hydrantGrid (snd (buildHydrantIndex st hs)) =
     insert_all (clear (hydrantGrid st)) (map (\<lambda>h. \<lparr>lat = lat h, lon = lon h, data = None\<rparr>) hs) \<and>
   stationGrid (snd (setStations st ss)) =
     insert_all (clear (stationGrid st)) (map (\<lambda>s. \<lparr>lat = lat s, lon = lon s, data = Some s\<rparr>) ss)"
  by (simp add: buildHydrantIndex_def setStations_def hydrant_insert_loop_insert_all
      station_insert_loop_insert_all)

lemma findNearest_from_as_scan:
  assumes "mset ps = mset ps'" and "cellSize g = cellSize g'"
  shows "\<exists>cs cs'. set cs = set cs' \<and> set cs \<subseteq> set ps \<and>
           findNearest_from (insert_all (clear g) ps) qlat qlon radius =
             nearest_scan qlat qlon cs PosInf None \<and>
           findNearest_from (insert_all (clear g') ps') qlat qlon radius =
             nearest_scan qlat qlon cs' PosInf None"
proof (induction "21 - radius" arbitrary: radius)
  case 0
  then have "\<not> radius \<le> 20" by simp
  then have "findNearest_from G qlat qlon radius = nearest_scan qlat qlon [] PosInf None"
    for G :: "'a SpatialGrid"
    by (subst findNearest_from.simps) simp
  then show ?case by (intro exI [of _ "[]"]) simp
next
  case (Suc n)
  then have le: "radius \<le> 20" and n: "n = 21 - (radius + 1)" by simp_all
  let ?c = "getNearbyPoints (insert_all (clear g) ps) qlat qlon (int radius)"
  let ?c' = "getNearbyPoints (insert_all (clear g') ps') qlat qlon (int radius)"
  have m: "mset ?c = mset ?c'" using assms by (rule nearby_built_mset)
  show ?case
  proof (cases "?c = []")
    case True
    with m have "?c' = []" by simp
    with True le have
      "findNearest_from (insert_all (clear g) ps) qlat qlon radius =
         findNearest_from (insert_all (clear g) ps) qlat qlon (radius + 1)"
      "findNearest_from (insert_all (clear g') ps') qlat qlon radius =
         findNearest_from (insert_all (clear g') ps') qlat qlon (radius + 1)"
      by (subst findNearest_from.simps, simp)+
    with Suc.hyps(1) [OF n] show ?thesis by simp
  next
    case False
    with m have "?c' \<noteq> []" by auto
    with False le have
      "findNearest_from (insert_all (clear g) ps) qlat qlon radius =
         nearest_scan qlat qlon ?c PosInf None"
      "findNearest_from (insert_all (clear g') ps') qlat qlon radius =
         nearest_scan qlat qlon ?c' PosInf None"
      by (subst findNearest_from.simps, simp)+
    moreover from m have "set ?c = set ?c'" by (rule mset_eq_setD)
    moreover have "set ?c \<subseteq> set ps" by (rule nearby_built_subset)
    ultimately show ?thesis by blast
  qed
qed

text \<open>
  Claim C8, as amended. Inserting the same points in two orders into freshly cleared
  indexes of the same cell size gives, for every query, the same distance; the two
  returned points are the same unless they are two different inserted points at that
  same distance from the query (the scan keeps the first of equidistant candidates,
  and the order inside a bucket is the insertion order).
\<close>

theorem insertion_order:
  assumes "mset ps = mset ps'" and "cellSize g = cellSize g'"
  shows "distance (findNearest (insert_all (clear g) ps) qlat qlon) =
           distance (findNearest (insert_all (clear g') ps') qlat qlon) \<and>
         (point (findNearest (insert_all (clear g) ps) qlat qlon) =
            point (findNearest (insert_all (clear g') ps') qlat qlon) \<or>
          (\<exists>p p'. point (findNearest (insert_all (clear g) ps) qlat qlon) = Some p \<and>
                   point (findNearest (insert_all (clear g') ps') qlat qlon) = Some p' \<and>
                   p \<noteq> p' \<and> p \<in> set ps \<and> p' \<in> set ps \<and>
                   haversineDistance qlat qlon (lat p) (lon p) =
                   haversineDistance qlat qlon (lat p') (lon p')))"
proof -
  from findNearest_from_as_scan [OF assms, of qlat qlon 1] obtain cs cs'
    where s: "set cs = set cs'" "set cs \<subseteq> set ps"
      and r1: "findNearest (insert_all (clear g) ps) qlat qlon = nearest_scan qlat qlon cs PosInf None"
      and r2: "findNearest (insert_all (clear g') ps') qlat qlon = nearest_scan qlat qlon cs' PosInf None"
    unfolding findNearest_def by blast
  from nearest_scan_set_eq [OF s(1), of qlat qlon] s(2) show ?thesis
    unfolding r1 r2 by blast
qed

lemma stations_nearby_12:
  "getNearbyPoints grid_12 (Fin (1929 / 50)) (Fin (- (12149 / 100))) 1 = [station_1, station_2]"
  by (simp add: grid_12_def station_1_def station_2_def getNearbyPoints_def getCell_def
      insert_point_def bucket_def clear_def new_SpatialGrid_def Let_def upto.simps)

lemma stations_nearby_21:
  "getNearbyPoints grid_21 (Fin (1929 / 50)) (Fin (- (12149 / 100))) 1 = [station_2, station_1]"
  by (simp add: grid_21_def station_1_def station_2_def getNearbyPoints_def getCell_def
      insert_point_def bucket_def clear_def new_SpatialGrid_def Let_def upto.simps)

lemma stations_scan:
  "point (nearest_scan (Fin (1929 / 50)) (Fin (- (12149 / 100))) [station_1, station_2] PosInf None) =
     Some station_1 \<and>
   point (nearest_scan (Fin (1929 / 50)) (Fin (- (12149 / 100))) [station_2, station_1] PosInf None) =
     Some station_2"
  by (simp add: station_1_def station_2_def haversine_same_point)

text \<open>
  Claim C8 as stated fails: two stations at one position, inserted in the two orders,
  make \<open>findNearest\<close> return the one and the other.
\<close>

theorem insertion_order_counterexample:
  "mset [station_1, station_2] = mset [station_2, station_1] \<and>
   grid_12 = insert_all (clear (new_SpatialGrid (Fin (1 / 100)))) [station_1, station_2] \<and>
   grid_21 = insert_all (clear (new_SpatialGrid (Fin (1 / 100)))) [station_2, station_1] \<and>
   point (findNearest grid_12 (Fin (1929 / 50)) (Fin (- (12149 / 100)))) = Some station_1 \<and>
   point (findNearest grid_21 (Fin (1929 / 50)) (Fin (- (12149 / 100)))) = Some station_2 \<and>
   station_1 \<noteq> station_2"
proof -
  have "findNearest grid_12 (Fin (1929 / 50)) (Fin (- (12149 / 100))) =
        nearest_scan (Fin (1929 / 50)) (Fin (- (12149 / 100)))
          (getNearbyPoints grid_12 (Fin (1929 / 50)) (Fin (- (12149 / 100))) (int 1)) PosInf None"
    by (rule findNearest_first_radius) (simp_all add: stations_nearby_12)
  then have "point (findNearest grid_12 (Fin (1929 / 50)) (Fin (- (12149 / 100)))) = Some station_1"
    by (simp only: of_nat_1 stations_nearby_12 stations_scan)
  moreover
  have "findNearest grid_21 (Fin (1929 / 50)) (Fin (- (12149 / 100))) =
        nearest_scan (Fin (1929 / 50)) (Fin (- (12149 / 100)))
          (getNearbyPoints grid_21 (Fin (1929 / 50)) (Fin (- (12149 / 100))) (int 1)) PosInf None"
    by (rule findNearest_first_radius) (simp_all add: stations_nearby_21)
  then have "point (findNearest grid_21 (Fin (1929 / 50)) (Fin (- (12149 / 100)))) = Some station_2"
    by (simp only: of_nat_1 stations_nearby_21 stations_scan)
  moreover have "station_1 \<noteq> station_2"
    by (simp add: station_1_def station_2_def)
  ultimately show ?thesis by (simp add: grid_12_def grid_21_def)
qed

text \<open>The theorem at the two stations: both orders give the same distance.\<close>

theorem insertion_order_witness:
  "mset [station_1, station_2] = mset [station_2, station_1] \<and>
   distance (findNearest grid_12 (Fin (1929 / 50)) (Fin (- (12149 / 100)))) =
   distance (findNearest grid_21 (Fin (1929 / 50)) (Fin (- (12149 / 100))))"
proof -
  have m: "mset [station_1, station_2] = mset [station_2, station_1]" by simp
  have c: "cellSize (new_SpatialGrid (Fin (1 / 100)) :: string SpatialGrid) =
           cellSize (new_SpatialGrid (Fin (1 / 100)) :: string SpatialGrid)" ..
  from insertion_order [OF m c, of "Fin (1929 / 50)" "Fin (- (12149 / 100))"] m
  show ?thesis unfolding grid_12_def grid_21_def by blast
qed

subsection \<open>The ring search against the brute-force scan\<close>

lemma fold_min_scan:
  "fold (\<lambda>p best. if jlt (haversineDistance qlat qlon (lat p) (lon p)) best
                     then haversineDistance qlat qlon (lat p) (lon p) else best) ps b =
   distance (nearest_scan qlat qlon ps b bp)"
  by (induction ps arbitrary: b bp) (simp_all add: Let_def)

lemma brute_force_scan:
  "brute_force_distance qlat qlon ps = distance (nearest_scan qlat qlon ps PosInf None)"
  unfolding brute_force_distance_def by (rule fold_min_scan)

text \<open>
  Claim C2, as amended. For an index built from a point set and a query, let \<open>r \<le> 20\<close>
  be the first radius whose block of cells holds an inserted point, one of them with a
  distance that is a number. The points collected are the inserted points whose cell
  lies in that block, and \<open>findNearest\<close> returns one of them, with its haversine
  distance, than which no point of the block is nearer. Whenever some globally nearest
  inserted point lies in that block, the returned point is globally nearest and its
  distance is the one of the brute-force scan over the whole point set. (Points
  outside the block are not looked at, so a nearer point in a farther ring is missed.)
\<close>

theorem findNearest_global_minimum:
  assumes r: "r \<in> {1..20}"
      "getNearbyPoints (insert_all (clear g) ps) qlat qlon (int r) \<noteq> []"
      "\<forall>r'\<in>{1..<r}. getNearbyPoints (insert_all (clear g) ps) qlat qlon (int r') = []"
    and num: "\<exists>p\<in>set (getNearbyPoints (insert_all (clear g) ps) qlat qlon (int r)).
                haversineDistance qlat qlon (lat p) (lon p) \<noteq> NaN"
  shows "(\<forall>p. p \<in> set (getNearbyPoints (insert_all (clear g) ps) qlat qlon (int r)) \<longleftrightarrow>
            p \<in> set ps \<and>
            (\<exists>dx\<in>{- int r..int r}. \<exists>dy\<in>{- int r..int r}.
               getCell g (lat p) (lon p) =
                 (jadd (fst (getCell g qlat qlon)) (Fin (of_int dx)),
                  jadd (snd (getCell g qlat qlon)) (Fin (of_int dy))))) \<and>
         (\<exists>p\<in>set (getNearbyPoints (insert_all (clear g) ps) qlat qlon (int r)).
            findNearest (insert_all (clear g) ps) qlat qlon =
              \<lparr>point = Some p, distance = haversineDistance qlat qlon (lat p) (lon p)\<rparr> \<and>
            (\<forall>p'\<in>set (getNearbyPoints (insert_all (clear g) ps) qlat qlon (int r)).
               \<not> jlt (haversineDistance qlat qlon (lat p') (lon p'))
                      (haversineDistance qlat qlon (lat p) (lon p))) \<and>
            ((\<exists>m\<in>set (getNearbyPoints (insert_all (clear g) ps) qlat qlon (int r)).
                haversineDistance qlat qlon (lat m) (lon m) \<noteq> NaN \<and>
                (\<forall>p'\<in>set ps. \<not> jlt (haversineDistance qlat qlon (lat p') (lon p'))
                                   (haversineDistance qlat qlon (lat m) (lon m)))) \<longrightarrow>
             (\<forall>p'\<in>set ps. \<not> jlt (haversineDistance qlat qlon (lat p') (lon p'))
                                (haversineDistance qlat qlon (lat p) (lon p))) \<and>
             haversineDistance qlat qlon (lat p) (lon p) = brute_force_distance qlat qlon ps))"
proof -
  let ?G = "insert_all (clear g) ps"
  let ?cs = "getNearbyPoints ?G qlat qlon (int r)"
  let ?h = "\<lambda>p. haversineDistance qlat qlon (lat p) (lon p)"
  have sub: "set ?cs \<subseteq> set ps" by (rule nearby_built_subset)
  have f: "findNearest ?G qlat qlon = nearest_scan qlat qlon ?cs PosInf None"
    using r by (intro findNearest_first_radius) auto
  from nearest_scan_cases [of ?cs qlat qlon] num obtain p where p: "p \<in> set ?cs"
      "nearest_scan qlat qlon ?cs PosInf None = \<lparr>point = Some p, distance = ?h p\<rparr>"
      "?h p \<noteq> NaN" "\<forall>p'\<in>set ?cs. \<not> jlt (?h p') (?h p)"
    by auto
  have glob: "(\<forall>p'\<in>set ps. \<not> jlt (?h p') (?h p)) \<and> ?h p = brute_force_distance qlat qlon ps"
    if m: "m \<in> set ?cs" "?h m \<noteq> NaN" "\<forall>p'\<in>set ps. \<not> jlt (?h p') (?h m)" for m
  proof -
    from p(1) sub have pin: "p \<in> set ps" by blast
    from p(4) m(1) have "\<not> jlt (?h m) (?h p)" by blast
    moreover from m(3) pin have "\<not> jlt (?h p) (?h m)" by blast
    ultimately have e: "?h p = ?h m" using jlt_total [OF p(3) m(2)] by blast
    with m(3) have g: "\<forall>p'\<in>set ps. \<not> jlt (?h p') (?h p)" by simp
    let ?d = "distance (nearest_scan qlat qlon ps PosInf None)"
    note spec = nearest_scan_spec [of qlat qlon ps PosInf None]
    from spec have nn: "?d \<noteq> NaN" by (auto dest: jlt_not_NaN)
    have "\<not> jlt ?d (?h p)"
    proof
      assume l: "jlt ?d (?h p)"
      with spec have "\<exists>p''\<in>set ps. ?d = ?h p''" by (auto simp: jlt_PosInf)
      with g l show False by auto
    qed
    moreover from spec pin have "\<not> jlt (?h p) ?d" by blast
    ultimately have "?h p = ?d" using jlt_total [OF p(3) nn] by blast
    with g show ?thesis by (simp add: brute_force_scan)
  qed
  have block: "\<forall>p. p \<in> set ?cs \<longleftrightarrow>
            p \<in> set ps \<and>
            (\<exists>dx\<in>{- int r..int r}. \<exists>dy\<in>{- int r..int r}.
               getCell g (lat p) (lon p) =
                 (jadd (fst (getCell g qlat qlon)) (Fin (of_int dx)),
                  jadd (snd (getCell g qlat qlon)) (Fin (of_int dy))))"
    by (intro allI nearby_built_block)
  from p(1,2,4) glob f have "\<exists>p\<in>set ?cs.
            findNearest ?G qlat qlon = \<lparr>point = Some p, distance = ?h p\<rparr> \<and>
            (\<forall>p'\<in>set ?cs. \<not> jlt (?h p') (?h p)) \<and>
            ((\<exists>m\<in>set ?cs. ?h m \<noteq> NaN \<and> (\<forall>p'\<in>set ps. \<not> jlt (?h p') (?h m))) \<longrightarrow>
             (\<forall>p'\<in>set ps. \<not> jlt (?h p') (?h p)) \<and> ?h p = brute_force_distance qlat qlon ps)"
    by (intro bexI [of _ p]) auto
  with block show ?thesis by blast
qed

lemma grid_AB_nearby_1:
  "getNearbyPoints grid_AB (Fin (49 / 10000)) (Fin (1 / 500)) 1 = [point_A]"
  by (simp add: grid_AB_def point_A_def point_B_def getNearbyPoints_def getCell_def
      insert_point_def bucket_def clear_def new_SpatialGrid_def Let_def upto.simps)

lemma grid_AB_nearby_2:
  "getNearbyPoints grid_AB (Fin (49 / 10000)) (Fin (1 / 500)) 2 = [point_A, point_B]"
  by (simp add: grid_AB_def point_A_def point_B_def getNearbyPoints_def getCell_def
      insert_point_def bucket_def clear_def new_SpatialGrid_def Let_def upto.simps)

lemma grid_AB_distances:
  "haversineDistance (Fin (49 / 10000)) (Fin (1 / 500)) (lat point_A) (lon point_A) =
     Fin (20902231 * (2 * (98 / 10000 * pi / 360))) \<and>
   haversineDistance (Fin (49 / 10000)) (Fin (1 / 500)) (lat point_B) (lon point_B) =
     Fin (20902231 * (2 * (52 / 10000 * pi / 360)))"
  using haversine_meridian [of "- (49 / 10000)" "49 / 10000" "1 / 500"]
    haversine_meridian [of "101 / 10000" "49 / 10000" "1 / 500"]
  by (simp add: point_A_def point_B_def)

text \<open>
  Claim C2 as stated fails: the index holds \<open>point_A\<close> and \<open>point_B\<close>, the query's
  first ring holds \<open>point_A\<close> only, and \<open>findNearest\<close> returns it although
  \<open>point_B\<close>, in the second ring, is nearer (about 1900 feet against 3580).
\<close>

theorem nearer_point_in_next_ring_counterexample:
  "allPoints grid_AB = [point_A, point_B] \<and>
   point (findNearest grid_AB (Fin (49 / 10000)) (Fin (1 / 500))) = Some point_A \<and>
   point_B \<in> set (getNearbyPoints grid_AB (Fin (49 / 10000)) (Fin (1 / 500)) 2) \<and>
   jlt (haversineDistance (Fin (49 / 10000)) (Fin (1 / 500)) (lat point_B) (lon point_B))
       (haversineDistance (Fin (49 / 10000)) (Fin (1 / 500)) (lat point_A) (lon point_A))"
proof -
  have "allPoints grid_AB = [point_A, point_B]"
    unfolding grid_AB_def allPoints_insert_all by (simp add: clear_def)
  moreover
  have "findNearest grid_AB (Fin (49 / 10000)) (Fin (1 / 500)) =
        nearest_scan (Fin (49 / 10000)) (Fin (1 / 500))
          (getNearbyPoints grid_AB (Fin (49 / 10000)) (Fin (1 / 500)) (int 1)) PosInf None"
    by (rule findNearest_first_radius) (simp_all add: grid_AB_nearby_1)
  then have "point (findNearest grid_AB (Fin (49 / 10000)) (Fin (1 / 500))) = Some point_A"
    by (simp add: grid_AB_nearby_1 Let_def grid_AB_distances)
  moreover have "jlt (haversineDistance (Fin (49 / 10000)) (Fin (1 / 500)) (lat point_B) (lon point_B))
       (haversineDistance (Fin (49 / 10000)) (Fin (1 / 500)) (lat point_A) (lon point_A))"
    by (simp add: grid_AB_distances)
  ultimately show ?thesis
    by (simp add: grid_AB_nearby_2)
qed

lemma grid_AB_north_nearby:
  "getNearbyPoints grid_AB (Fin (99 / 10000)) (Fin (1 / 500)) 1 = [point_B]"
  by (simp add: grid_AB_def point_A_def point_B_def getNearbyPoints_def getCell_def
      insert_point_def bucket_def clear_def new_SpatialGrid_def Let_def upto.simps)

lemma grid_AB_north_distances:
  "haversineDistance (Fin (99 / 10000)) (Fin (1 / 500)) (lat point_A) (lon point_A) =
     Fin (20902231 * (2 * (37 / 2500 * pi / 360))) \<and>
   haversineDistance (Fin (99 / 10000)) (Fin (1 / 500)) (lat point_B) (lon point_B) =
     Fin (20902231 * (2 * (1 / 5000 * pi / 360)))"
  using haversine_meridian [of "- (49 / 10000)" "99 / 10000" "1 / 500"]
    haversine_meridian [of "101 / 10000" "99 / 10000" "1 / 500"]
  by (simp add: point_A_def point_B_def)

text \<open>
  The theorem at the index of \<open>point_A\<close> and \<open>point_B\<close> and a query whose first ring
  holds \<open>point_B\<close>, the globally nearest point, and not \<open>point_A\<close>.
\<close>

theorem findNearest_global_minimum_witness:
  "getNearbyPoints grid_AB (Fin (99 / 10000)) (Fin (1 / 500)) 1 = [point_B] \<and>
   point_A \<noteq> point_B \<and>
   findNearest grid_AB (Fin (99 / 10000)) (Fin (1 / 500)) =
     \<lparr>point = Some point_B, distance = Fin (20902231 * (2 * (1 / 5000 * pi / 360)))\<rparr> \<and>
   brute_force_distance (Fin (99 / 10000)) (Fin (1 / 500)) [point_A, point_B] =
     Fin (20902231 * (2 * (1 / 5000 * pi / 360)))"
proof -
  let ?qlat = "Fin (99 / 10000)" and ?qlon = "Fin (1 / 500)"
  let ?g = "new_SpatialGrid (Fin (1 / 200)) :: unit SpatialGrid"
  let ?h = "\<lambda>p :: unit point. haversineDistance ?qlat ?qlon (lat p) (lon p)"
  have n: "getNearbyPoints (insert_all (clear ?g) [point_A, point_B]) ?qlat ?qlon (int 1) = [point_B]"
    using grid_AB_north_nearby by (simp add: grid_AB_def)
  have r: "1 \<in> {1..20::nat}" by simp
  have ne: "getNearbyPoints (insert_all (clear ?g) [point_A, point_B]) ?qlat ?qlon (int 1) \<noteq> []"
    unfolding n by simp
  have e: "\<forall>r'\<in>{1..<1::nat}. getNearbyPoints (insert_all (clear ?g) [point_A, point_B])
             ?qlat ?qlon (int r') = []"
    by simp
  have num: "\<exists>p\<in>set (getNearbyPoints (insert_all (clear ?g) [point_A, point_B]) ?qlat ?qlon (int 1)).
               ?h p \<noteq> NaN"
    unfolding n by (simp add: grid_AB_north_distances)
  have m: "\<exists>m\<in>set (getNearbyPoints (insert_all (clear ?g) [point_A, point_B]) ?qlat ?qlon (int 1)).
             ?h m \<noteq> NaN \<and> (\<forall>p'\<in>set [point_A, point_B]. \<not> jlt (?h p') (?h m))"
    unfolding n by (simp add: grid_AB_north_distances)
  from findNearest_global_minimum [OF r ne e num, THEN conjunct2] m
  have "findNearest (insert_all (clear ?g) [point_A, point_B]) ?qlat ?qlon =
          \<lparr>point = Some point_B, distance = ?h point_B\<rparr> \<and>
        ?h point_B = brute_force_distance ?qlat ?qlon [point_A, point_B]"
    unfolding n by auto
  moreover have "point_A \<noteq> point_B" by (simp add: point_A_def point_B_def)
  ultimately show ?thesis
    using grid_AB_north_nearby grid_AB_north_distances by (simp add: grid_AB_def)
qed

end
